theory Spec2Isabelle
  imports Main
begin

section \<open>JavaScript library operations used by the service\<close>

text \<open>
  \<open>Array.prototype.join\<close> on an array of strings: the elements, with the separator
  between each two of them; the empty string for the empty array.
\<close>

fun js_join :: "string \<Rightarrow> string list \<Rightarrow> string" where
  "js_join sep [] = []"
| "js_join sep [x] = x"
| "js_join sep (x # y # ys) = x @ sep @ js_join sep (y # ys)"

text \<open>\<open>Array.prototype.slice(0, n)\<close> is \<open>take n\<close>; a non-empty string is truthy.\<close>

definition truthy :: "string \<Rightarrow> bool" where
  "truthy s = (s \<noteq> [])"

section \<open>Author line (\<open>src/app.ts\<close>, \<open>prepareAuthor\<close> and \<open>prepareAuthorLine\<close>)\<close>

text \<open>
  Modelled from the spec: the type \<open>Author\<close> of \<open>src/types/author\<close> is not among the
  sources; the two fields that \<open>prepareAuthor\<close> reads are optional sequences of names.
\<close>

record Author =
  givenNames :: "string list option"
  familyNames :: "string list option"

definition prepareAuthor :: "Author \<Rightarrow> string" where
  "prepareAuthor author =
     (let givenNames' = js_join '' '' (case givenNames author of None \<Rightarrow> [] | Some ns \<Rightarrow> ns);
          familyNames' = js_join '' '' (case familyNames author of None \<Rightarrow> [] | Some ns \<Rightarrow> ns)
      in givenNames' @ (if truthy familyNames' then '' '' else '''') @ familyNames')"

text \<open>
  The three conditional pushes build \<open>authorLine\<close>; the indices are read only under the
  length tests of the source, so no read is out of range. The result \<open>None\<close> is the
  \<open>undefined\<close> of the early return. The last line of the source joins the first two
  entries by a comma, puts the third entry (or \<open>null\<close>) beside them, drops the
  \<open>null\<close> and joins what is left.
\<close>

definition prepareAuthorLine :: "Author list \<Rightarrow> string option" where
  "prepareAuthorLine authors =
     (if length authors = 0 then None
      else
        let l0 = [];
            l1 = (if length authors > 0 then l0 @ [prepareAuthor (authors ! 0)] else l0);
            l2 = (if length authors > 1 then l1 @ [prepareAuthor (authors ! 1)] else l1);
            authorLine =
              (if length authors > 2
               then l2 @ [prepareAuthor (authors ! (length authors - 1))] else l2)
        in Some (js_join (if length authors > 3 then '' ... '' else '', '')
                  (map the (filter (\<lambda>a. a \<noteq> None)
                     [Some (js_join '', '' (take 2 authorLine)),
                      if length authorLine > 2 then Some (authorLine ! 2) else None]))))"

section \<open>Rich text (\<open>src/utils/content-to-html.ts\<close>)\<close>

text \<open>
  Modelled from the spec: the type \<open>Content\<close> of \<open>src/types/content\<close> is not among the
  sources. A value is absent, a plain string, an ordered sequence of values, or a node
  with a \<open>type\<close> tag and a nested \<open>content\<close>. The tag is kept as a string, so that the
  \<open>default\<close> branch of the \<open>switch\<close> can be reached.
\<close>

datatype Content =
    Undefined
  | Text string
  | Seq "Content list"
  | Node string Content

fun contentToHtml :: "Content \<Rightarrow> string" where
  "contentToHtml Undefined = ''''"
| "contentToHtml (Text s) = s"
| "contentToHtml (Seq parts) = js_join '''' (map contentToHtml parts)"
| "contentToHtml (Node ty c) =
     (if ty = ''Paragraph'' then ''<p>'' @ contentToHtml c @ ''</p>''
      else if ty = ''Emphasis'' then ''<em>'' @ contentToHtml c @ ''</em>''
      else if ty = ''Strong'' then ''<strong>'' @ contentToHtml c @ ''</strong>''
      else if ty = ''NontextualAnnotation'' then ''<u>'' @ contentToHtml c @ ''</u>''
      else if ty = ''Superscript'' then ''<sup>'' @ contentToHtml c @ ''</sup>''
      else if ty = ''Subscript'' then ''<sub>'' @ contentToHtml c @ ''</sub>''
      else '''')"

text \<open>The tag of each variant that the renderer knows.\<close>

definition tagOf :: "string \<rightharpoonup> string" where
  "tagOf = map_of
     [(''Paragraph'', ''p''), (''Emphasis'', ''em''), (''Strong'', ''strong''),
      (''NontextualAnnotation'', ''u''), (''Superscript'', ''sup''), (''Subscript'', ''sub'')]"

section \<open>JavaScript numbers, as far as the request handler uses them\<close>

text \<open>
  A number is \<open>NaN\<close>, an infinity, or a finite decimal \<open>Fin m e\<close> that stands for
  \<open>m * 10 ^ e\<close>. The decimals are exact: the model does not round to the 64-bit binary
  format. It agrees with the program on the integers up to \<open>2 ^ 53\<close> and on the
  literals of at most 15 significant digits within the range of the format, which the
  format gives back digit by digit. Strings are strings of Latin-1 characters.
\<close>

datatype jsnum = NaN | PosInfinity | NegInfinity | Fin int int

definition isWhiteSpace :: "char \<Rightarrow> bool" where
  "isWhiteSpace c =
     (c = CHR 0x09 \<or> c = CHR 0x0A \<or> c = CHR 0x0B \<or> c = CHR 0x0C \<or> c = CHR 0x0D
      \<or> c = CHR 0x20 \<or> c = CHR 0xA0)"

definition trimStart :: "string \<Rightarrow> string" where
  "trimStart s = dropWhile isWhiteSpace s"

definition trim :: "string \<Rightarrow> string" where
  "trim s = rev (dropWhile isWhiteSpace (rev (dropWhile isWhiteSpace s)))"

definition isDigit :: "char \<Rightarrow> bool" where
  "isDigit c = (48 \<le> (of_char c :: nat) \<and> (of_char c :: nat) \<le> 57)"

definition digitVal :: "char \<Rightarrow> nat" where
  "digitVal c =
     (let n = (of_char c :: nat) in
      if 48 \<le> n \<and> n \<le> 57 then n - 48
      else if 97 \<le> n \<and> n \<le> 102 then n - 87
      else if 65 \<le> n \<and> n \<le> 70 then n - 55
      else 0)"

definition isDigitOfRadix :: "nat \<Rightarrow> char \<Rightarrow> bool" where
  "isDigitOfRadix r c =
     ((isDigit c \<or> (97 \<le> (of_char c :: nat) \<and> (of_char c :: nat) \<le> 102)
       \<or> (65 \<le> (of_char c :: nat) \<and> (of_char c :: nat) \<le> 70))
      \<and> digitVal c < r)"

definition valueOfDigits :: "nat \<Rightarrow> string \<Rightarrow> int" where
  "valueOfDigits r ds = foldl (\<lambda>a c. int r * a + int (digitVal c)) 0 ds"

text \<open>
  The decimal digits of a non-negative integer (the loop that divides by ten until one
  digit is left), and the decimal form of an integer.
\<close>

function showNat :: "int \<Rightarrow> string" where
  "showNat n =
     (if n < 10 then [char_of (48 + nat n)]
      else showNat (n div 10) @ [char_of (48 + nat (n mod 10))])"
  by pat_completeness auto
termination
  by (relation "measure nat") auto

definition showInt :: "int \<Rightarrow> string" where
  "showInt i = (if i < 0 then ''-'' @ showNat (- i) else showNat i)"

text \<open>
  \<open>Number.prototype.toString\<close> (radix 10), by the steps of ECMA-262
  \<open>Number::toString\<close>: with \<open>k\<close> significant digits and the decimal point after the
  \<open>n\<close>-th of them, the digits are padded with zeros, split by a point, prefixed by
  \<open>0.\<close>, or written with an exponent.
\<close>

definition numToString :: "jsnum \<Rightarrow> string" where
  "numToString x =
     (case x of
        NaN \<Rightarrow> ''NaN''
      | PosInfinity \<Rightarrow> ''Infinity''
      | NegInfinity \<Rightarrow> ''-Infinity''
      | Fin m e \<Rightarrow>
          if m = 0 then ''0''
          else
            let all = showNat \<bar>m\<bar>;
                ds = rev (dropWhile (\<lambda>c. c = CHR ''0'') (rev all));
                k = int (length ds);
                n = int (length all) + e;
                body =
                  (if k \<le> n \<and> n \<le> 21 then ds @ replicate (nat (n - k)) CHR ''0''
                   else if 0 < n \<and> n \<le> 21 then take (nat n) ds @ ''.'' @ drop (nat n) ds
                   else if - 6 < n \<and> n \<le> 0 then ''0.'' @ replicate (nat (- n)) CHR ''0'' @ ds
                   else
                     (if k = 1 then ds else take 1 ds @ ''.'' @ drop 1 ds)
                     @ ''e'' @ (if n - 1 < 0 then ''-'' else ''+'') @ showNat \<bar>n - 1\<bar>)
            in (if m < 0 then ''-'' else '''') @ body)"

text \<open>
  \<open>parseInt(string, 10)\<close>: leading white space is dropped, a sign is read, and the
  longest prefix of decimal digits is the value; with no digit the result is \<open>NaN\<close>.
  The value is exact here; the program rounds it to the 64-bit binary format, which
  holds every integer up to \<open>2 ^ 53\<close> and not every integer beyond.
\<close>

definition parseInt10 :: "string \<Rightarrow> jsnum" where
  "parseInt10 inputString =
     (let S = trimStart inputString;
          sign = (if S \<noteq> [] \<and> hd S = CHR ''-'' then - 1 else 1 :: int);
          S' = (if S \<noteq> [] \<and> (hd S = CHR ''+'' \<or> hd S = CHR ''-'') then tl S else S);
          Z = takeWhile isDigit S'
      in if Z = [] then NaN else Fin (sign * valueOfDigits 10 Z) 0)"

text \<open>
  \<open>Number(string)\<close>, the \<open>StringToNumber\<close> of ECMA-262: surrounding white space is
  dropped; the empty string is \<open>0\<close>; then a binary, octal or hexadecimal integer
  literal without sign, or an optionally signed \<open>Infinity\<close> or decimal literal
  (digits, an optional point and fraction, an optional exponent); anything else is
  \<open>NaN\<close>.
\<close>

definition exponentPart :: "string \<Rightarrow> int option" where
  "exponentPart r =
     (if r = [] then Some 0
      else if hd r = CHR ''e'' \<or> hd r = CHR ''E'' then
        (let r1 = tl r;
             neg = (r1 \<noteq> [] \<and> hd r1 = CHR ''-'');
             r2 = (if r1 \<noteq> [] \<and> (hd r1 = CHR ''+'' \<or> hd r1 = CHR ''-'') then tl r1 else r1)
         in if r2 \<noteq> [] \<and> list_all isDigit r2
            then Some ((if neg then - 1 else 1) * valueOfDigits 10 r2) else None)
      else None)"

definition unsignedDecimal :: "string \<Rightarrow> jsnum" where
  "unsignedDecimal s =
     (if s = ''Infinity'' then PosInfinity
      else
        let ip = takeWhile isDigit s;
            r1 = dropWhile isDigit s;
            hasPoint = (r1 \<noteq> [] \<and> hd r1 = CHR ''.'');
            fp = (if hasPoint then takeWhile isDigit (tl r1) else []);
            r2 = (if hasPoint then dropWhile isDigit (tl r1) else r1)
        in if ip = [] \<and> fp = [] then NaN
           else (case exponentPart r2 of
                   None \<Rightarrow> NaN
                 | Some ex \<Rightarrow> Fin (valueOfDigits 10 (ip @ fp)) (ex - int (length fp))))"

definition negate :: "jsnum \<Rightarrow> jsnum" where
  "negate x =
     (case x of NaN \<Rightarrow> NaN | PosInfinity \<Rightarrow> NegInfinity | NegInfinity \<Rightarrow> PosInfinity
      | Fin m e \<Rightarrow> Fin (- m) e)"

definition nonDecimalLiteral :: "string \<Rightarrow> jsnum option" where
  "nonDecimalLiteral s =
     (if length s > 2 \<and> s ! 0 = CHR ''0'' then
        (let p = s ! 1; ds = drop 2 s;
             r = (if p = CHR ''x'' \<or> p = CHR ''X'' then 16
                  else if p = CHR ''o'' \<or> p = CHR ''O'' then 8
                  else if p = CHR ''b'' \<or> p = CHR ''B'' then 2 else 0 :: nat)
         in if r \<noteq> 0 \<and> list_all (isDigitOfRadix r) ds then Some (Fin (valueOfDigits r ds) 0)
            else None)
      else None)"

definition StringToNumber :: "string \<Rightarrow> jsnum" where
  "StringToNumber str =
     (let s = trim str in
      if s = [] then Fin 0 0
      else (case nonDecimalLiteral s of
              Some v \<Rightarrow> v
            | None \<Rightarrow>
                if hd s = CHR ''+'' then unsignedDecimal (tl s)
                else if hd s = CHR ''-'' then negate (unsignedDecimal (tl s))
                else unsignedDecimal s))"

text \<open>The comparisons of the handler; every comparison with \<open>NaN\<close> is false.\<close>

definition num_le :: "jsnum \<Rightarrow> jsnum \<Rightarrow> bool" where
  "num_le a b =
     (case (a, b) of
        (NaN, _) \<Rightarrow> False
      | (_, NaN) \<Rightarrow> False
      | (NegInfinity, _) \<Rightarrow> True
      | (_, PosInfinity) \<Rightarrow> True
      | (PosInfinity, _) \<Rightarrow> False
      | (_, NegInfinity) \<Rightarrow> False
      | (Fin m1 e1, Fin m2 e2) \<Rightarrow>
          (let e = min e1 e2 in m1 * 10 ^ nat (e1 - e) \<le> m2 * 10 ^ nat (e2 - e)))"

definition num_gt :: "jsnum \<Rightarrow> jsnum \<Rightarrow> bool" where
  "num_gt a b =
     (case (a, b) of
        (NaN, _) \<Rightarrow> False
      | (_, NaN) \<Rightarrow> False
      | (NegInfinity, _) \<Rightarrow> False
      | (_, PosInfinity) \<Rightarrow> False
      | (PosInfinity, _) \<Rightarrow> True
      | (_, NegInfinity) \<Rightarrow> True
      | (Fin m1 e1, Fin m2 e2) \<Rightarrow>
          (let e = min e1 e2 in m1 * 10 ^ nat (e1 - e) > m2 * 10 ^ nat (e2 - e)))"

section \<open>JavaScript dates (ECMA-262, Date objects)\<close>

text \<open>
  A \<open>Date\<close> holds a time value, the milliseconds since 1970-01-01T00:00:00Z, or is
  invalid (its time value is \<open>NaN\<close>). The functions below are the day and time
  functions of ECMA-262 by their definitions there; all of them are about UTC.
\<close>

datatype jsdate = InvalidDate | TimeValue int

definition msPerDay :: int where
  "msPerDay = 86400000"

definition Day :: "int \<Rightarrow> int" where
  "Day t = t div msPerDay"

definition TimeWithinDay :: "int \<Rightarrow> int" where
  "TimeWithinDay t = t mod msPerDay"

definition DaysInYear :: "int \<Rightarrow> int" where
  "DaysInYear y =
     (if y mod 4 \<noteq> 0 then 365 else if y mod 100 \<noteq> 0 then 366
      else if y mod 400 \<noteq> 0 then 365 else 366)"

definition DayFromYear :: "int \<Rightarrow> int" where
  "DayFromYear y =
     365 * (y - 1970) + (y - 1969) div 4 - (y - 1901) div 100 + (y - 1601) div 400"

text \<open>Each year adds its number of days to the day number of its first day.\<close>

lemma div_step:
  fixes x k :: int
  assumes "0 < k"
  shows "(x + 1) div k = x div k + (if (x + 1) mod k = 0 then 1 else 0)"
proof -
  define q r where "q = x div k" and "r = x mod k"
  have x: "x = k * q + r" by (simp add: q_def r_def)
  have r: "0 \<le> r" "r < k" using assms by (simp_all add: r_def)
  show ?thesis
  proof (cases "r = k - 1")
    case True
    then have e: "x + 1 = k * (q + 1) + 0" using x by (simp add: algebra_simps)
    have "(x + 1) div k = q + 1" by (rule int_div_pos_eq [OF e]) (use assms in simp_all)
    moreover have "(x + 1) mod k = 0" by (rule int_mod_pos_eq [OF e]) (use assms in simp_all)
    ultimately show ?thesis by (simp add: q_def)
  next
    case False
    then have lt: "r + 1 < k" and ge: "0 \<le> r + 1" using r by simp_all
    have e: "x + 1 = k * q + (r + 1)" using x by simp
    have "(x + 1) div k = q" using e ge lt by (rule int_div_pos_eq)
    moreover have "(x + 1) mod k = r + 1" using e ge lt by (rule int_mod_pos_eq)
    ultimately show ?thesis using r by (simp add: q_def)
  qed
qed

lemma leap_terms:
  fixes y :: int
  shows "(y - 1968) div 4 = (y - 1969) div 4 + (if y mod 4 = 0 then 1 else 0)"
    and "(y - 1900) div 100 = (y - 1901) div 100 + (if y mod 100 = 0 then 1 else 0)"
    and "(y - 1600) div 400 = (y - 1601) div 400 + (if y mod 400 = 0 then 1 else 0)"
proof -
  have m4: "(y - 1968) mod 4 = y mod 4"
    using mod_mult_self2 [of y 4 "- 492"] by simp
  have m100: "(y - 1900) mod 100 = y mod 100"
    using mod_mult_self2 [of y 100 "- 19"] by simp
  have m400: "(y - 1600) mod 400 = y mod 400"
    using mod_mult_self2 [of y 400 "- 4"] by simp
  show "(y - 1968) div 4 = (y - 1969) div 4 + (if y mod 4 = 0 then 1 else 0)"
    using div_step [of 4 "y - 1969"] m4 by simp
  show "(y - 1900) div 100 = (y - 1901) div 100 + (if y mod 100 = 0 then 1 else 0)"
    using div_step [of 100 "y - 1901"] m100 by simp
  show "(y - 1600) div 400 = (y - 1601) div 400 + (if y mod 400 = 0 then 1 else 0)"
    using div_step [of 400 "y - 1601"] m400 by simp
qed

lemma DayFromYear_step: "DayFromYear (y + 1) = DayFromYear y + DaysInYear y"
proof -
  have a: "y mod 4 = 0" if "y mod 100 = 0"
    using that mod_mod_cancel [of 4 100 y] by simp
  have b: "y mod 100 = 0" if "y mod 400 = 0"
    using that mod_mod_cancel [of 100 400 y] by simp
  have "DayFromYear (y + 1) =
      365 * (y - 1969) + (y - 1968) div 4 - (y - 1900) div 100 + (y - 1600) div 400"
    by (simp add: DayFromYear_def)
  then show ?thesis
    using a b by (auto simp add: leap_terms DayFromYear_def DaysInYear_def)
qed

lemma DaysInYear_bounds: "365 \<le> DaysInYear y \<and> DaysInYear y \<le> 366"
  by (simp add: DaysInYear_def)

text \<open>
  \<open>YearFromTime\<close> is the largest year whose first day is not after the given day. The
  search starts from an estimate, goes down while the year starts too late and then up
  while the next year has started.
\<close>

function yearDown :: "int \<Rightarrow> int \<Rightarrow> int" where
  "yearDown d y = (if d < DayFromYear y then yearDown d (y - 1) else y)"
  by pat_completeness auto
termination
proof (relation "measure (\<lambda>(d, y). nat (DayFromYear y - d))")
  show "wf (measure (\<lambda>(d, y). nat (DayFromYear y - d)))" by simp
next
  fix d y :: int
  assume "d < DayFromYear y"
  moreover have "DayFromYear y = DayFromYear (y - 1) + DaysInYear (y - 1)"
    using DayFromYear_step [of "y - 1"] by simp
  moreover have "365 \<le> DaysInYear (y - 1)" using DaysInYear_bounds by blast
  ultimately show "((d, y - 1), (d, y)) \<in> measure (\<lambda>(d, y). nat (DayFromYear y - d))"
    by simp
qed

function yearUp :: "int \<Rightarrow> int \<Rightarrow> int" where
  "yearUp d y = (if DayFromYear (y + 1) \<le> d then yearUp d (y + 1) else y)"
  by pat_completeness auto
termination
proof (relation "measure (\<lambda>(d, y). nat (d + 1 - DayFromYear (y + 1)))")
  show "wf (measure (\<lambda>(d, y). nat (d + 1 - DayFromYear (y + 1))))" by simp
next
  fix d y :: int
  assume "DayFromYear (y + 1) \<le> d"
  moreover have "DayFromYear (y + 1 + 1) = DayFromYear (y + 1) + DaysInYear (y + 1)"
    by (rule DayFromYear_step)
  moreover have "365 \<le> DaysInYear (y + 1)" using DaysInYear_bounds by blast
  ultimately show
    "((d, y + 1), (d, y)) \<in> measure (\<lambda>(d, y). nat (d + 1 - DayFromYear (y + 1)))"
    by simp
qed

definition YearFromDay :: "int \<Rightarrow> int" where
  "YearFromDay d = yearUp d (yearDown d (1970 + d div 365))"

definition YearFromTime :: "int \<Rightarrow> int" where
  "YearFromTime t = YearFromDay (Day t)"

definition InLeapYear :: "int \<Rightarrow> int" where
  "InLeapYear t = (if DaysInYear (YearFromTime t) = 366 then 1 else 0)"

definition DayWithinYear :: "int \<Rightarrow> int" where
  "DayWithinYear t = Day t - DayFromYear (YearFromTime t)"

definition MonthFromTime :: "int \<Rightarrow> int" where
  "MonthFromTime t =
     (let d = DayWithinYear t; l = InLeapYear t in
      if d < 31 then 0
      else if d < 59 + l then 1
      else if d < 90 + l then 2
      else if d < 120 + l then 3
      else if d < 151 + l then 4
      else if d < 181 + l then 5
      else if d < 212 + l then 6
      else if d < 243 + l then 7
      else if d < 273 + l then 8
      else if d < 304 + l then 9
      else if d < 334 + l then 10
      else 11)"

definition DateFromTime :: "int \<Rightarrow> int" where
  "DateFromTime t =
     (let d = DayWithinYear t; l = InLeapYear t; m = MonthFromTime t in
      if m = 0 then d + 1
      else if m = 1 then d - 30
      else if m = 2 then d - 58 - l
      else if m = 3 then d - 89 - l
      else if m = 4 then d - 119 - l
      else if m = 5 then d - 150 - l
      else if m = 6 then d - 180 - l
      else if m = 7 then d - 211 - l
      else if m = 8 then d - 242 - l
      else if m = 9 then d - 272 - l
      else if m = 10 then d - 303 - l
      else d - 333 - l)"

definition HourFromTime :: "int \<Rightarrow> int" where
  "HourFromTime t = (t div 3600000) mod 24"

definition MinFromTime :: "int \<Rightarrow> int" where
  "MinFromTime t = (t div 60000) mod 60"

definition SecFromTime :: "int \<Rightarrow> int" where
  "SecFromTime t = (t div 1000) mod 60"

definition msFromTime :: "int \<Rightarrow> int" where
  "msFromTime t = t mod 1000"

text \<open>
  \<open>MakeDay\<close>: the day number of the first day of the month (months beyond the year
  carry into the year), plus the date minus one; a date beyond the month carries into
  the following months. \<open>MakeDate\<close> and \<open>TimeClip\<close> as in ECMA-262.
\<close>

definition DaysBeforeMonth :: "int \<Rightarrow> int \<Rightarrow> int" where
  "DaysBeforeMonth y mn =
     (let l = (if DaysInYear y = 366 then 1 else 0 :: int) in
      if mn = 0 then 0
      else if mn = 1 then 31
      else if mn = 2 then 59 + l
      else if mn = 3 then 90 + l
      else if mn = 4 then 120 + l
      else if mn = 5 then 151 + l
      else if mn = 6 then 181 + l
      else if mn = 7 then 212 + l
      else if mn = 8 then 243 + l
      else if mn = 9 then 273 + l
      else if mn = 10 then 304 + l
      else 334 + l)"

definition MakeDay :: "int \<Rightarrow> int \<Rightarrow> int \<Rightarrow> int" where
  "MakeDay year month date =
     (let ym = year + month div 12; mn = month mod 12
      in DayFromYear ym + DaysBeforeMonth ym mn + date - 1)"

definition MakeDate :: "int \<Rightarrow> int \<Rightarrow> int" where
  "MakeDate day time = day * msPerDay + time"

definition TimeClip :: "int \<Rightarrow> jsdate" where
  "TimeClip t = (if \<bar>t\<bar> > 8640000000000000 then InvalidDate else TimeValue t)"

section \<open>Date objects: the methods that the service calls\<close>

definition getUTCFullYear :: "jsdate \<Rightarrow> jsnum" where
  "getUTCFullYear d = (case d of InvalidDate \<Rightarrow> NaN | TimeValue t \<Rightarrow> Fin (YearFromTime t) 0)"

definition getUTCMonth :: "jsdate \<Rightarrow> jsnum" where
  "getUTCMonth d = (case d of InvalidDate \<Rightarrow> NaN | TimeValue t \<Rightarrow> Fin (MonthFromTime t) 0)"

definition getUTCDate :: "jsdate \<Rightarrow> jsnum" where
  "getUTCDate d = (case d of InvalidDate \<Rightarrow> NaN | TimeValue t \<Rightarrow> Fin (DateFromTime t) 0)"

definition getUTCHours :: "jsdate \<Rightarrow> jsnum" where
  "getUTCHours d = (case d of InvalidDate \<Rightarrow> NaN | TimeValue t \<Rightarrow> Fin (HourFromTime t) 0)"

definition getUTCMinutes :: "jsdate \<Rightarrow> jsnum" where
  "getUTCMinutes d = (case d of InvalidDate \<Rightarrow> NaN | TimeValue t \<Rightarrow> Fin (MinFromTime t) 0)"

definition getUTCSeconds :: "jsdate \<Rightarrow> jsnum" where
  "getUTCSeconds d = (case d of InvalidDate \<Rightarrow> NaN | TimeValue t \<Rightarrow> Fin (SecFromTime t) 0)"

text \<open>The sum of two numbers (the \<open>+\<close> of the source on numbers).\<close>

definition num_add :: "jsnum \<Rightarrow> jsnum \<Rightarrow> jsnum" where
  "num_add a b =
     (case (a, b) of
        (NaN, _) \<Rightarrow> NaN
      | (_, NaN) \<Rightarrow> NaN
      | (PosInfinity, NegInfinity) \<Rightarrow> NaN
      | (NegInfinity, PosInfinity) \<Rightarrow> NaN
      | (PosInfinity, _) \<Rightarrow> PosInfinity
      | (_, PosInfinity) \<Rightarrow> PosInfinity
      | (NegInfinity, _) \<Rightarrow> NegInfinity
      | (_, NegInfinity) \<Rightarrow> NegInfinity
      | (Fin m1 e1, Fin m2 e2) \<Rightarrow>
          (let e = min e1 e2 in Fin (m1 * 10 ^ nat (e1 - e) + m2 * 10 ^ nat (e2 - e)) e))"

text \<open>\<open>String.prototype.padStart\<close> with a filler of one character.\<close>

definition padStart :: "nat \<Rightarrow> char \<Rightarrow> string \<Rightarrow> string" where
  "padStart n c s = replicate (n - length s) c @ s"

text \<open>
  A date string of the form \<open>YYYY-MM-DD\<close> that names a day of the calendar: four
  digits, two digits from 01 to 12 and two digits from 01 to the length of that month,
  with hyphens between them. This is what the strict parse
  \<open>moment(s, 'YYYY-MM-DD', true).isValid()\<close> accepts, and every such string is a date
  of the date-time string format of ECMA-262, read as midnight UTC.
\<close>

definition DaysInMonth :: "int \<Rightarrow> int \<Rightarrow> int" where
  "DaysInMonth y m =
     (if m = 2 then (if DaysInYear y = 366 then 29 else 28)
      else if m = 4 \<or> m = 6 \<or> m = 9 \<or> m = 11 then 30 else 31)"

definition isCalendarDate :: "string \<Rightarrow> bool" where
  "isCalendarDate s =
     (length s = 10 \<and> list_all isDigit (take 4 s) \<and> s ! 4 = CHR ''-''
      \<and> list_all isDigit (take 2 (drop 5 s)) \<and> s ! 7 = CHR ''-''
      \<and> list_all isDigit (take 2 (drop 8 s))
      \<and> (let y = valueOfDigits 10 (take 4 s);
              m = valueOfDigits 10 (take 2 (drop 5 s));
              d = valueOfDigits 10 (take 2 (drop 8 s))
          in 1 \<le> m \<and> m \<le> 12 \<and> 1 \<le> d \<and> d \<le> DaysInMonth y m))"

text \<open>
  \<open>new Date(value)\<close> for a \<open>Date\<close> copies the time value; for \<open>null\<close> (a
  \<open>published\<close> field that is \<open>null\<close> behind the non-null assertion of the source)
  the time value is 0.
\<close>

definition Date_ofDate :: "jsdate \<Rightarrow> jsdate" where
  "Date_ofDate d = d"

definition Date_ofNullable :: "jsdate option \<Rightarrow> jsdate" where
  "Date_ofNullable d = (case d of None \<Rightarrow> TimeValue 0 | Some d' \<Rightarrow> Date_ofDate d')"

section \<open>Date normalizer (\<open>src/app.ts\<close>, \<open>toIsoStringWithoutMilliseconds\<close>)\<close>

definition toIsoStringWithoutMilliseconds :: "jsdate \<Rightarrow> string" where
  "toIsoStringWithoutMilliseconds date =
     (let year = getUTCFullYear date;
          month = padStart 2 CHR ''0'' (numToString (num_add (getUTCMonth date) (Fin 1 0)));
          day = padStart 2 CHR ''0'' (numToString (getUTCDate date));
          hours = padStart 2 CHR ''0'' (numToString (getUTCHours date));
          minutes = padStart 2 CHR ''0'' (numToString (getUTCMinutes date));
          seconds = padStart 2 CHR ''0'' (numToString (getUTCSeconds date))
      in numToString year @ ''-'' @ month @ ''-'' @ day @ ''T'' @ hours @ '':'' @ minutes
         @ '':'' @ seconds @ ''Z'')"

section \<open>Subjects (\<open>src/app.ts\<close>, \<open>msaNames\<close> and \<open>getSubjects\<close>)\<close>

record Subject =
  subject_id :: "string option"
  name :: string

definition msaNames :: "(string \<times> string) list" where
  "msaNames =
     [(''Biochemistry and Chemical Biology'', ''biochemistry-chemical-biology''),
      (''Cancer Biology'', ''cancer-biology''),
      (''Cell Biology'', ''cell-biology''),
      (''Chromosomes and Gene Expression'', ''chromosomes-gene-expression''),
      (''Computational and Systems Biology'', ''computational-systems-biology''),
      (''Developmental Biology'', ''developmental-biology''),
      (''Ecology'', ''ecology''),
      (''Epidemiology and Global Health'', ''epidemiology-global-health''),
      (''Evolutionary Biology'', ''evolutionary-biology''),
      (''Genetics and Genomics'', ''genetics-genomics''),
      (''Immunology and Inflammation'', ''immunology-inflammation''),
      (''Medicine'', ''medicine''),
      (''Microbiology and Infectious Disease'', ''microbiology-infectious-disease''),
      (''Neuroscience'', ''neuroscience''),
      (''Physics of Living Systems'', ''physics-living-systems''),
      (''Plant Biology'', ''plant-biology''),
      (''Stem Cells and Regenerative Medicine'', ''stem-cells-regenerative-medicine''),
      (''Structural Biology and Molecular Biophysics'',
       ''structural-biology-molecular-biophysics'')]"

text \<open>
  A name that the table does not hold gets the id \<open>undefined\<close>. (For the name of a
  member of \<open>Object.prototype\<close> the lookup of the source finds that member, which
  JSON leaves out as it leaves out \<open>undefined\<close>.)
\<close>

definition getSubjects :: "string list \<Rightarrow> Subject list" where
  "getSubjects subjectNames =
     map (\<lambda>subjectName. \<lparr>subject_id = map_of msaNames subjectName, name = subjectName\<rparr>)
       subjectNames"

section \<open>Records and the record transformer (\<open>src/app.ts\<close>)\<close>

text \<open>
  The types of the source, field by field. A field marked \<open>?\<close> in the source is an
  option; a field named \<open>id\<close>, \<open>type\<close>, \<open>text\<close> or \<open>title\<close> carries the name of
  its record, and the fields of the snippet carry the prefix \<open>snippet\<close> where the
  upstream record has a field of the same name. Timestamps are \<open>Date\<close> values, as the
  types of the source say.
\<close>

record License =
  license_type :: string
  license_url :: "string option"
  license_content :: "Content option"

record Heading =
  heading_id :: string
  heading_text :: Content

record Reference =
  reference_title :: string

record ProcessedArticle =
  article_title :: Content
  authors :: "Author list option"
  licenses :: "License list"
  headings :: "Heading list"
  references :: "Reference list"

record RelatedContent =
  related_type :: string
  related_title :: string
  related_url :: string
  related_content :: "string option"
  imageUrl :: "string option"

record EnhancedArticleNoContent =
  article_id :: string
  msid :: string
  doi :: string
  versionIdentifier :: string
  versionDoi :: "string option"
  preprintDoi :: string
  preprintUrl :: string
  preprintPosted :: jsdate
  sentForReview :: "jsdate option"
  published :: "jsdate option"
  publishedYear :: "int option"
  volume :: "string option"
  eLocationId :: "string option"
  subjects :: "string list option"
  pdfUrl :: "string option"
  relatedContent :: "RelatedContent list option"
  article :: ProcessedArticle
  firstPublished :: jsdate

record ReviewedPreprintSnippet =
  snippet_id :: string
  snippet_doi :: string
  pdf :: "string option"
  status :: string
  authorLine :: "string option"
  snippet_title :: string
  snippet_published :: string
  reviewedDate :: string
  versionDate :: string
  statusDate :: string
  stage :: string
  snippet_subjects :: "Subject list"

definition enhancedArticleNoContentToSnippet ::
    "EnhancedArticleNoContent \<Rightarrow> ReviewedPreprintSnippet" where
  "enhancedArticleNoContentToSnippet r =
     \<lparr>snippet_id = msid r,
      snippet_doi = preprintDoi r,
      pdf = pdfUrl r,
      status = ''reviewed'',
      authorLine =
        prepareAuthorLine (case authors (article r) of None \<Rightarrow> [] | Some as \<Rightarrow> as),
      snippet_title = contentToHtml (article_title (article r)),
      snippet_published = toIsoStringWithoutMilliseconds (Date_ofDate (firstPublished r)),
      reviewedDate = toIsoStringWithoutMilliseconds (Date_ofDate (firstPublished r)),
      versionDate = toIsoStringWithoutMilliseconds (Date_ofNullable (published r)),
      statusDate = toIsoStringWithoutMilliseconds (Date_ofNullable (published r)),
      stage = ''published'',
      snippet_subjects = getSubjects (case subjects r of None \<Rightarrow> [] | Some ss \<Rightarrow> ss)\<rparr>"

section \<open>The surroundings of the service\<close>

text \<open>
  What the service takes from its surroundings: the current time (\<open>new Date()\<close>), the
  offset of local time from UTC in milliseconds (taken as constant; it is 0 where the
  process runs in UTC), the result of \<open>new Date(string)\<close> on the strings that are not
  calendar dates (ECMA-262 leaves much of it to the implementation), and the reply of
  the upstream service to a GET of a URL: none (the request fails), or a response with
  its \<open>ok\<close> flag, its status text, its \<open>x-total-count\<close> header if it has one, and the
  records of its JSON body (none when the body is not JSON).
\<close>

record UpstreamResponse =
  ok :: bool
  statusText :: string
  x_total_count :: "string option"
  json :: "EnhancedArticleNoContent list option"

record Env =
  now :: int
  localTZA :: int
  dateParseOther :: "string \<Rightarrow> jsdate"
  fetch :: "string \<Rightarrow> UpstreamResponse option"

text \<open>
  The errors that leave \<open>fetchVersionsNoContent\<close>: the \<open>RangeError\<close> of
  \<open>toISOString\<close> on an invalid date, the rejection of \<open>fetch\<close> or of
  \<open>response.json()\<close>, and the \<open>Error\<close> that the source throws with its message.
\<close>

datatype js_error =
    RangeError
  | FetchRejected
  | JsonRejected
  | Error string

definition Date_parse :: "Env \<Rightarrow> string \<Rightarrow> jsdate" where
  "Date_parse env s =
     (if isCalendarDate s
      then TimeClip (MakeDate (MakeDay (valueOfDigits 10 (take 4 s))
                                 (valueOfDigits 10 (take 2 (drop 5 s)) - 1)
                                 (valueOfDigits 10 (take 2 (drop 8 s)))) 0)
      else dateParseOther env s)"

text \<open>
  \<open>Date.prototype.setDate\<close>: the day of the month of the local time is replaced, the
  time within the day is kept, and a day beyond the month carries over. The result is
  the date after the call, whose time value is also what the method returns. The
  argument of the source is a whole number or \<open>NaN\<close>.
\<close>

definition Date_setDate :: "Env \<Rightarrow> jsdate \<Rightarrow> jsnum \<Rightarrow> jsdate" where
  "Date_setDate env d dt =
     (case d of
        InvalidDate \<Rightarrow> InvalidDate
      | TimeValue t0 \<Rightarrow>
          (case dt of
             Fin m e \<Rightarrow>
               (let t = t0 + localTZA env;
                    date = (if 0 \<le> e then m * 10 ^ nat e
                            else sgn m * (\<bar>m\<bar> div 10 ^ nat (- e)));
                    newDate = MakeDate (MakeDay (YearFromTime t) (MonthFromTime t) date)
                                (TimeWithinDay t)
                in TimeClip (newDate - localTZA env))
           | _ \<Rightarrow> InvalidDate))"

text \<open>
  \<open>Date.prototype.toISOString\<close>: a \<open>RangeError\<close> on an invalid date; else the year
  with four digits (or a sign and six digits outside 0 to 9999), month, day, hours,
  minutes and seconds with two digits and the milliseconds with three.
\<close>

definition Date_toISOString :: "jsdate \<Rightarrow> js_error + string" where
  "Date_toISOString d =
     (case d of
        InvalidDate \<Rightarrow> Inl RangeError
      | TimeValue t \<Rightarrow>
          (let y = YearFromTime t;
               year = (if 0 \<le> y \<and> y \<le> 9999 then padStart 4 CHR ''0'' (showNat y)
                       else (if y < 0 then ''-'' else ''+'') @ padStart 6 CHR ''0'' (showNat \<bar>y\<bar>))
           in Inr (year @ ''-'' @ padStart 2 CHR ''0'' (showNat (MonthFromTime t + 1))
                   @ ''-'' @ padStart 2 CHR ''0'' (showNat (DateFromTime t))
                   @ ''T'' @ padStart 2 CHR ''0'' (showNat (HourFromTime t))
                   @ '':'' @ padStart 2 CHR ''0'' (showNat (MinFromTime t))
                   @ '':'' @ padStart 2 CHR ''0'' (showNat (SecFromTime t))
                   @ ''.'' @ padStart 3 CHR ''0'' (showNat (msFromTime t)) @ ''Z'')))"

section \<open>Upstream client (\<open>src/app.ts\<close>, \<open>fetchVersionsNoContent\<close>)\<close>

text \<open>
  The last entry of the query: empty for an empty \<open>endDate\<close>; else the current date
  with its day of the month set to the UTC day of the month of \<open>endDate\<close> plus one,
  as an ISO string up to its \<open>T\<close>.
\<close>

definition endDateQuery :: "Env \<Rightarrow> string \<Rightarrow> js_error + string" where
  "endDateQuery env endDate =
     (if truthy endDate then
        (case Date_toISOString
                (Date_setDate env (TimeValue (now env))
                   (num_add (getUTCDate (Date_parse env endDate)) (Fin 1 0))) of
           Inl err \<Rightarrow> Inl err
         | Inr isoString \<Rightarrow> Inr (''end-date='' @ takeWhile (\<lambda>c. c \<noteq> CHR ''T'') isoString))
      else Inr '''')"

definition versionsUrl ::
    "Env \<Rightarrow> jsnum \<Rightarrow> jsnum \<Rightarrow> string \<Rightarrow> string \<Rightarrow> string \<Rightarrow> string \<Rightarrow> js_error + string" where
  "versionsUrl env page perPage order' useDate startDate endDate =
     (case endDateQuery env endDate of
        Inl err \<Rightarrow> Inl err
      | Inr endQ \<Rightarrow>
          Inr (js_join ''''
                [''http://wiremock:3000/api/preprints-no-content?'',
                 js_join ''&''
                   (filter truthy
                      [''page='' @ numToString page,
                       ''per-page='' @ numToString perPage,
                       ''order='' @ order',
                       if useDate = ''published'' then ''use-date=firstPublished'' else '''',
                       if truthy startDate then ''start-date='' @ startDate else '''',
                       endQ])]))"

definition fetchVersionsNoContent ::
    "Env \<Rightarrow> jsnum \<Rightarrow> jsnum \<Rightarrow> string \<Rightarrow> string \<Rightarrow> string \<Rightarrow> string
       \<Rightarrow> js_error + (jsnum \<times> EnhancedArticleNoContent list)" where
  "fetchVersionsNoContent env page perPage order' useDate startDate endDate =
     (case versionsUrl env page perPage order' useDate startDate endDate of
        Inl err \<Rightarrow> Inl err
      | Inr url \<Rightarrow>
          (case fetch env url of
             None \<Rightarrow> Inl FetchRejected
           | Some response \<Rightarrow>
               if \<not> ok response
               then Inl (Error (''error fetching ('' @ url @ ''): '' @ statusText response))
               else
                 (case json response of
                    None \<Rightarrow> Inl JsonRejected
                  | Some items \<Rightarrow>
                      let total =
                            (case x_total_count response of
                               Some h \<Rightarrow>
                                 if truthy h then parseInt10 h
                                 else Fin (int (length items)) 0
                             | None \<Rightarrow> Fin (int (length items)) 0)
                      in Inr (total, items))))"

section \<open>Response writer (\<open>src/app.ts\<close>, \<open>writeResponse\<close>)\<close>

text \<open>
  The JSON bodies of the service: a problem with its title and optional detail, or a
  list with its total and its snippets.
\<close>

datatype Message =
    Problem string "string option"
  | ListResponse jsnum "ReviewedPreprintSnippet list"

text \<open>
  The response of one request: whether its headers have been sent, its status code,
  its headers and its body. The headers are the values that the source gives to
  \<open>res.set\<close>; what express adds to them when it sends the body (a \<open>charset\<close>
  parameter of \<open>Content-Type\<close>) is left out. The field \<open>calls\<close> is not part of
  the response: it records every call of \<open>writeResponse\<close> with its arguments, so that calls without effect can
  be told from calls that were never made.
\<close>

record Response =
  headersSent :: bool
  statusCode :: nat
  headers :: "string \<rightharpoonup> string list"
  body :: "Message option"
  calls :: "(string \<times> nat \<times> Message) list"

definition newResponse :: Response where
  "newResponse =
     \<lparr>headersSent = False, statusCode = 200, headers = Map.empty, body = None, calls = []\<rparr>"

definition writeResponse :: "Response \<Rightarrow> string \<Rightarrow> nat \<Rightarrow> Message \<Rightarrow> Response" where
  "writeResponse res contentType statusCode' message =
     (let res' = res\<lparr>calls := calls res @ [(contentType, statusCode', message)]\<rparr>
      in if \<not> headersSent res' then
           res'\<lparr>statusCode := statusCode',
                headers := (headers res')
                  (''Content-Type'' \<mapsto> [contentType],
                   ''Cache-Control'' \<mapsto>
                      [if statusCode' = 200
                       then ''max-age=300, public, stale-if-error=86400, stale-while-revalidate=300''
                       else ''must-revalidate, no-cache, private''],
                   ''Vary'' \<mapsto> [''Accept'', ''Authorization'']),
                body := Some message,
                headersSent := True\<rparr>
         else res')"

definition errorBadRequest :: "Response \<Rightarrow> string \<Rightarrow> Response" where
  "errorBadRequest res message =
     writeResponse res ''application/problem+json'' 400 (Problem ''bad request'' (Some message))"

definition errorNotFoundRequest :: "Response \<Rightarrow> Response" where
  "errorNotFoundRequest res =
     writeResponse res ''application/json'' 404 (Problem ''not found'' None)"

section \<open>Request handlers (\<open>src/app.ts\<close>, \<open>app.get\<close>)\<close>

text \<open>
  The query of a request gives each key at most one string. A parameter is a string of
  the query, a number (the defaults 20 and 1) or \<open>null\<close>.
\<close>

datatype Param = PString string | PNumber jsnum | PNull

definition queryParam :: "(string \<rightharpoonup> string) \<Rightarrow> string \<Rightarrow> Param \<Rightarrow> Param" where
  "queryParam query key defaultValue =
     (case query key of Some v \<Rightarrow> PString v | None \<Rightarrow> defaultValue)"

definition Number' :: "Param \<Rightarrow> jsnum" where
  "Number' v = (case v of PString s \<Rightarrow> StringToNumber s | PNumber n \<Rightarrow> n | PNull \<Rightarrow> Fin 0 0)"

text \<open>
  The function that the handler maps over \<open>per-page\<close> and \<open>page\<close>: the number, if
  its string is the string of the integer read back from it, else \<open>-1\<close>.
\<close>

definition intOrMinusOne :: "Param \<Rightarrow> jsnum" where
  "intOrMinusOne v =
     (let n = Number' v in
      if numToString n = numToString (parseInt10 (numToString n)) then n else Fin (- 1) 0)"

text \<open>\<open>(queryParam(req, key) || defaultValue).toString()\<close>\<close>

definition stringOr :: "Param \<Rightarrow> string \<Rightarrow> string" where
  "stringOr v defaultValue =
     (case v of
        PString s \<Rightarrow> if truthy s then s else defaultValue
      | PNumber n \<Rightarrow>
          if n = NaN \<or> (num_le n (Fin 0 0) \<and> num_le (Fin 0 0) n) then defaultValue
          else numToString n
      | PNull \<Rightarrow> defaultValue)"

text \<open>
  The list handler returns the response at its end and the error that ended it, if
  one did. None of the six checks returns, so the upstream client is called and the
  list is written whatever the checks found.
\<close>

definition listHandler ::
    "Env \<Rightarrow> (string \<rightharpoonup> string) \<Rightarrow> Response \<Rightarrow> Response \<times> js_error option" where
  "listHandler env query res =
     (let perPage = intOrMinusOne (queryParam query ''per-page'' (PNumber (Fin 20 0)));
          page = intOrMinusOne (queryParam query ''page'' (PNumber (Fin 1 0)));
          order' = stringOr (queryParam query ''order'' PNull) ''desc'';
          useDate = stringOr (queryParam query ''use-date'' PNull) ''default'';
          startDate = stringOr (queryParam query ''start-date'' PNull) '''';
          endDate = stringOr (queryParam query ''end-date'' PNull) '''';
          res1 = (if num_le page (Fin 0 0)
                  then errorBadRequest res ''expecting positive integer for 'page' parameter''
                  else res);
          res2 = (if num_le perPage (Fin 0 0) \<or> num_gt perPage (Fin 100 0)
                  then errorBadRequest res1
                         ''expecting positive integer between 1 and 100 for 'per-page' parameter''
                  else res1);
          res3 = (if \<not> List.member [''asc'', ''desc''] order'
                  then errorBadRequest res2
                         ''expecting either 'asc' or 'desc' for 'order' parameter''
                  else res2);
          res4 = (if \<not> List.member [''default'', ''published''] useDate
                  then errorBadRequest res3
                         ''expecting either 'default' or 'published' for 'use-date' parameter''
                  else res3);
          res5 = (if truthy startDate \<and> \<not> isCalendarDate startDate
                  then errorBadRequest res4
                         ''expecting YYYY-MM-DD format for 'start-date' parameter''
                  else res4);
          res6 = (if truthy endDate \<and> \<not> isCalendarDate endDate
                  then errorBadRequest res5
                         ''expecting YYYY-MM-DD format for 'end-date' parameter''
                  else res5)
      in case fetchVersionsNoContent env page perPage order' useDate startDate endDate of
           Inl err \<Rightarrow> (res6, Some err)
         | Inr (results_total, results_items) \<Rightarrow>
             (writeResponse res6 ''application/vnd.elife.reviewed-preprint-list+json; version=1''
                200 (ListResponse results_total (map enhancedArticleNoContentToSnippet results_items)),
              None))"

definition itemHandler :: "Response \<Rightarrow> Response" where
  "itemHandler res = errorNotFoundRequest res"

section \<open>What the claims speak of\<close>

text \<open>
  The shape \<open>YYYY-MM-DDTHH:MM:SSZ\<close>: twenty characters, digits at the places of the
  letters and the separators between them; and the number that a string holds in the
  \<open>n\<close> characters from place \<open>i\<close> on.
\<close>

definition isoShape :: "string \<Rightarrow> bool" where
  "isoShape s =
     (length s = 20
      \<and> list_all isDigit (map (nth s) [0, 1, 2, 3, 5, 6, 8, 9, 11, 12, 14, 15, 17, 18])
      \<and> s ! 4 = CHR ''-'' \<and> s ! 7 = CHR ''-'' \<and> s ! 10 = CHR ''T''
      \<and> s ! 13 = CHR '':'' \<and> s ! 16 = CHR '':'' \<and> s ! 19 = CHR ''Z'')"

definition fieldAt :: "string \<Rightarrow> nat \<Rightarrow> nat \<Rightarrow> int" where
  "fieldAt s i n = valueOfDigits 10 (take n (drop i s))"

text \<open>
  The details of the validation errors of a request, in the order of the checks of the
  list handler: page, per-page, order, use-date, start-date, end-date.
\<close>

definition validationErrors :: "(string \<rightharpoonup> string) \<Rightarrow> string list" where
  "validationErrors query =
     (let perPage = intOrMinusOne (queryParam query ''per-page'' (PNumber (Fin 20 0)));
          page = intOrMinusOne (queryParam query ''page'' (PNumber (Fin 1 0)));
          order' = stringOr (queryParam query ''order'' PNull) ''desc'';
          useDate = stringOr (queryParam query ''use-date'' PNull) ''default'';
          startDate = stringOr (queryParam query ''start-date'' PNull) '''';
          endDate = stringOr (queryParam query ''end-date'' PNull) ''''
      in (if num_le page (Fin 0 0)
          then [''expecting positive integer for 'page' parameter''] else [])
       @ (if num_le perPage (Fin 0 0) \<or> num_gt perPage (Fin 100 0)
          then [''expecting positive integer between 1 and 100 for 'per-page' parameter'']
          else [])
       @ (if \<not> List.member [''asc'', ''desc''] order'
          then [''expecting either 'asc' or 'desc' for 'order' parameter''] else [])
       @ (if \<not> List.member [''default'', ''published''] useDate
          then [''expecting either 'default' or 'published' for 'use-date' parameter'']
          else [])
       @ (if truthy startDate \<and> \<not> isCalendarDate startDate
          then [''expecting YYYY-MM-DD format for 'start-date' parameter''] else [])
       @ (if truthy endDate \<and> \<not> isCalendarDate endDate
          then [''expecting YYYY-MM-DD format for 'end-date' parameter''] else []))"

text \<open>The call of \<open>writeResponse\<close> that \<open>errorBadRequest\<close> makes for a detail.\<close>

definition problemCall :: "string \<Rightarrow> string \<times> nat \<times> Message" where
  "problemCall d = (''application/problem+json'', 400, Problem ''bad request'' (Some d))"

text \<open>
  Nothing has been sent while no call was made; after that the response that has been
  sent is the one of the first call.
\<close>

definition firstCallSent :: "Response \<Rightarrow> bool" where
  "firstCallSent res =
     (case calls res of
        [] \<Rightarrow> \<not> headersSent res \<and> body res = None
      | (ct, sc, m) # _ \<Rightarrow>
          headersSent res \<and> statusCode res = sc \<and> body res = Some m
          \<and> headers res ''Content-Type'' = Some [ct])"

text \<open>
  Surroundings for the examples: the clock reads 2026-11-03T09:18:00Z, local time is
  UTC, no other date string parses, and the upstream service answers every request
  with an empty list and the given \<open>x-total-count\<close> header.
\<close>

definition exampleEnv :: "string option \<Rightarrow> Env" where
  "exampleEnv h =
     \<lparr>now = 1793697480000, localTZA = 0, dateParseOther = (\<lambda>s. InvalidDate),
      fetch = (\<lambda>url. Some \<lparr>ok = True, statusText = ''OK'', x_total_count = h,
                             json = Some []\<rparr>)\<rparr>"

definition exampleArticle :: EnhancedArticleNoContent where
  "exampleArticle =
     \<lparr>article_id = ''85111v2'', msid = ''85111'', doi = ''10.7554/eLife.85111'',
      versionIdentifier = ''2'', versionDoi = None,
      preprintDoi = ''10.1101/2022.11.08.515698'',
      preprintUrl = ''https://www.biorxiv.org/content/10.1101/2022.11.08.515698v2'',
      preprintPosted = TimeValue 1667865600000, sentForReview = None,
      published = Some (TimeValue 1682944245678), publishedYear = Some 2023,
      volume = None, eLocationId = None, subjects = Some [''Cell Biology''],
      pdfUrl = None, relatedContent = None,
      article = \<lparr>article_title = Node ''Emphasis'' (Text ''A title''),
                  authors = Some [\<lparr>givenNames = Some [''Jane''], familyNames = Some [''Doe'']\<rparr>],
                  licenses = [], headings = [], references = []\<rparr>,
      firstPublished = TimeValue 1675209600000\<rparr>"

text \<open>
  A string starts with a number when a decimal digit follows its leading white space
  and its optional sign.
\<close>

definition startsWithNumber :: "string \<Rightarrow> bool" where
  "startsWithNumber h =
     (let S = trimStart h;
          S' = (if S \<noteq> [] \<and> (hd S = CHR ''+'' \<or> hd S = CHR ''-'') then tl S else S)
      in S' \<noteq> [] \<and> isDigit (hd S'))"

text \<open>The character of a decimal digit.\<close>

definition dg :: "int \<Rightarrow> char" where
  "dg d = char_of (48 + nat d)"

declare showNat.simps [simp del]
declare yearDown.simps [simp del]
declare yearUp.simps [simp del]

section \<open>Properties of the author line\<close>

lemma js_join_empty_sep: "js_join [] xs = concat xs"
  by (induction "[] :: string" xs rule: js_join.induct) simp_all

lemma prepareAuthorLine_four_or_more:
  assumes "4 \<le> length as"
  shows "prepareAuthorLine as =
           Some (prepareAuthor (as ! 0) @ '', '' @ prepareAuthor (as ! 1)
                 @ '' ... '' @ prepareAuthor (last as))"
proof -
  have ne: "as \<noteq> []" using assms by auto
  show ?thesis
    using assms ne by (simp add: prepareAuthorLine_def Let_def last_conv_nth)
qed

text \<open>
  C1. The author-line summarizer returns nothing for the empty list, the display form
  for one author, the display forms joined by a comma and a space for two and for three
  as, and for four or more as the first two display forms joined by a comma
  and a space, then \<open>" ... "\<close>, then the display form of the last author.
\<close>

theorem prepareAuthorLine_by_count:
  "prepareAuthorLine [] = None
   \<and> prepareAuthorLine [a] = Some (prepareAuthor a)
   \<and> prepareAuthorLine [a, b] = Some (prepareAuthor a @ '', '' @ prepareAuthor b)
   \<and> prepareAuthorLine [a, b, c] =
       Some (prepareAuthor a @ '', '' @ prepareAuthor b @ '', '' @ prepareAuthor c)
   \<and> (4 \<le> length as \<longrightarrow>
       prepareAuthorLine as =
         Some (prepareAuthor (as ! 0) @ '', '' @ prepareAuthor (as ! 1)
               @ '' ... '' @ prepareAuthor (last as)))"
proof (intro conjI impI)
  show "prepareAuthorLine [] = None"
    by (simp add: prepareAuthorLine_def)
  show "prepareAuthorLine [a] = Some (prepareAuthor a)"
    by (simp add: prepareAuthorLine_def)
  show "prepareAuthorLine [a, b] = Some (prepareAuthor a @ '', '' @ prepareAuthor b)"
    by (simp add: prepareAuthorLine_def)
  show "prepareAuthorLine [a, b, c] =
       Some (prepareAuthor a @ '', '' @ prepareAuthor b @ '', '' @ prepareAuthor c)"
    by (simp add: prepareAuthorLine_def)
  show "prepareAuthorLine as =
         Some (prepareAuthor (as ! 0) @ '', '' @ prepareAuthor (as ! 1)
               @ '' ... '' @ prepareAuthor (last as))"
    if "4 \<le> length as"
    using that by (rule prepareAuthorLine_four_or_more)
qed

theorem prepareAuthorLine_by_count_witness:
  "4 \<le> length [\<lparr>givenNames = Some [''A''], familyNames = None\<rparr>,
                \<lparr>givenNames = Some [''B''], familyNames = None\<rparr>,
                \<lparr>givenNames = Some [''C''], familyNames = None\<rparr>,
                \<lparr>givenNames = Some [''D''], familyNames = None\<rparr>,
                \<lparr>givenNames = Some [''Jane''], familyNames = Some [''Doe'']\<rparr>]
   \<and> prepareAuthorLine
         [\<lparr>givenNames = Some [''A''], familyNames = None\<rparr>,
          \<lparr>givenNames = Some [''B''], familyNames = None\<rparr>,
          \<lparr>givenNames = Some [''C''], familyNames = None\<rparr>,
          \<lparr>givenNames = Some [''D''], familyNames = None\<rparr>,
          \<lparr>givenNames = Some [''Jane''], familyNames = Some [''Doe'']\<rparr>]
       = Some ''A, B ... Jane Doe''"
  using prepareAuthorLine_by_count
    [of undefined undefined undefined
        "[\<lparr>givenNames = Some [''A''], familyNames = None\<rparr>,
          \<lparr>givenNames = Some [''B''], familyNames = None\<rparr>,
          \<lparr>givenNames = Some [''C''], familyNames = None\<rparr>,
          \<lparr>givenNames = Some [''D''], familyNames = None\<rparr>,
          \<lparr>givenNames = Some [''Jane''], familyNames = Some [''Doe'']\<rparr>]"]
  by (simp add: prepareAuthor_def truthy_def)

lemma prepareAuthorLine_reads:
  "prepareAuthorLine as =
     (if as = [] then None
      else if length as = 1 then Some (prepareAuthor (as ! 0))
      else if length as = 2
        then Some (prepareAuthor (as ! 0) @ '', '' @ prepareAuthor (as ! 1))
      else Some (prepareAuthor (as ! 0) @ '', '' @ prepareAuthor (as ! 1)
                 @ (if length as > 3 then '' ... '' else '', '')
                 @ prepareAuthor (as ! (length as - 1))))"
  by (cases as; cases "tl as") (auto simp add: prepareAuthorLine_def Let_def)

text \<open>
  C10. The output of the author-line summarizer depends only on the first, the second
  and the last author: two author lists of the same length that agree at index 0, at
  index 1 and at the last index (wherever these indices exist) give the same result.
\<close>

theorem prepareAuthorLine_depends_on_three:
  assumes "length xs = length ys"
    and "\<forall>i \<in> {0, 1, length xs - 1}. i < length xs \<longrightarrow> xs ! i = ys ! i"
  shows "prepareAuthorLine xs = prepareAuthorLine ys"
proof (cases "xs = []")
  case True
  then show ?thesis using assms(1) by simp
next
  case False
  then have pos: "0 < length xs" by simp
  have a0: "xs ! 0 = ys ! 0" using assms(2) pos by simp
  have al: "xs ! (length xs - 1) = ys ! (length ys - 1)"
    using assms pos by simp
  have a1: "xs ! 1 = ys ! 1" if "1 < length xs" using assms(2) that by simp
  have ne: "ys \<noteq> []" using False assms(1) by auto
  show ?thesis
  proof (cases "length xs = 1")
    case True
    then show ?thesis
      using a0 assms(1) False ne by (simp add: prepareAuthorLine_reads)
  next
    case False
    then have "1 < length xs" using pos by arith
    then have "xs ! 1 = ys ! 1" by (rule a1)
    then show ?thesis
      using a0 al assms(1) \<open>xs \<noteq> []\<close> ne by (simp add: prepareAuthorLine_reads)
  qed
qed

theorem prepareAuthorLine_depends_on_three_witness:
  "prepareAuthorLine
     [\<lparr>givenNames = Some [''A''], familyNames = None\<rparr>,
      \<lparr>givenNames = Some [''B''], familyNames = None\<rparr>,
      \<lparr>givenNames = Some [''C''], familyNames = None\<rparr>,
      \<lparr>givenNames = Some [''D''], familyNames = None\<rparr>]
   = prepareAuthorLine
     [\<lparr>givenNames = Some [''A''], familyNames = None\<rparr>,
      \<lparr>givenNames = Some [''B''], familyNames = None\<rparr>,
      \<lparr>givenNames = Some [''X'', ''Y''], familyNames = Some [''Z'']\<rparr>,
      \<lparr>givenNames = Some [''D''], familyNames = None\<rparr>]"
  by (rule prepareAuthorLine_depends_on_three) (simp_all add: nth_Cons')

section \<open>Properties of the rich-text renderer\<close>

lemma contentToHtml_known:
  assumes "tagOf ty = Some tag"
  shows "contentToHtml (Node ty c) = ''<'' @ tag @ ''>'' @ contentToHtml c @ ''</'' @ tag @ ''>''"
  using assms by (auto simp: tagOf_def split: if_splits)

lemma contentToHtml_unknown:
  assumes "tagOf ty = None"
  shows "contentToHtml (Node ty c) = ''''"
  using assms by (simp add: tagOf_def split: if_splits)

text \<open>
  C2. The renderer returns the empty string for an absent value, a plain string
  unchanged, for a sequence the concatenation of the renders of its elements in order,
  for a node of a known variant the render of its content between the opening and the
  closing tag of that variant (Paragraph p, Emphasis em, Strong strong,
  NontextualAnnotation u, Superscript sup, Subscript sub), and the empty string for a
  node of any other variant. The renderer is a total function with no error branch.
\<close>

theorem contentToHtml_cases:
  "contentToHtml Undefined = ''''
   \<and> contentToHtml (Text s) = s
   \<and> contentToHtml (Seq parts) = concat (map contentToHtml parts)
   \<and> tagOf ''Paragraph'' = Some ''p'' \<and> tagOf ''Emphasis'' = Some ''em''
   \<and> tagOf ''Strong'' = Some ''strong'' \<and> tagOf ''NontextualAnnotation'' = Some ''u''
   \<and> tagOf ''Superscript'' = Some ''sup'' \<and> tagOf ''Subscript'' = Some ''sub''
   \<and> (tagOf ty = Some tag \<longrightarrow>
        contentToHtml (Node ty c) = ''<'' @ tag @ ''>'' @ contentToHtml c @ ''</'' @ tag @ ''>'')
   \<and> (tagOf ty' = None \<longrightarrow> contentToHtml (Node ty' c') = '''')"
proof (intro conjI impI)
  show "contentToHtml (Seq parts) = concat (map contentToHtml parts)"
    by (simp add: js_join_empty_sep)
  show "contentToHtml (Node ty c) = ''<'' @ tag @ ''>'' @ contentToHtml c @ ''</'' @ tag @ ''>''"
    if "tagOf ty = Some tag" using that by (rule contentToHtml_known)
  show "contentToHtml (Node ty' c') = ''''" if "tagOf ty' = None"
    using that by (rule contentToHtml_unknown)
qed (simp_all add: tagOf_def)

theorem contentToHtml_cases_witness:
  "tagOf ''Strong'' = Some ''strong''
   \<and> contentToHtml (Node ''Strong'' (Text ''x'')) = ''<strong>x</strong>''
   \<and> tagOf ''Heading'' = None
   \<and> contentToHtml (Node ''Heading'' (Seq [Text ''x'', Undefined])) = ''''"
  using contentToHtml_cases
    [of undefined undefined "''Strong''" "''strong''" "Text ''x''" "''Heading''"
        "Seq [Text ''x'', Undefined]"]
  by (simp add: tagOf_def)

section \<open>Decimal digits\<close>

lemma digit_char:
  assumes "0 \<le> d" "d < 10"
  shows "isDigit (char_of (48 + nat d))" "digitVal (char_of (48 + nat d)) = nat d"
proof -
  have "nat d < 10" using assms by simp
  then have m: "(48 + nat d) mod 256 = 48 + nat d" by simp
  show "isDigit (char_of (48 + nat d))"
    using m \<open>nat d < 10\<close> by (simp add: isDigit_def)
  show "digitVal (char_of (48 + nat d)) = nat d"
    using m \<open>nat d < 10\<close> by (simp add: digitVal_def)
qed

lemma showNat_1: "0 \<le> n \<Longrightarrow> n < 10 \<Longrightarrow> showNat n = [char_of (48 + nat n)]"
  by (subst showNat.simps) simp

lemma showNat_2:
  assumes "10 \<le> n" "n < 100"
  shows "showNat n = [char_of (48 + nat (n div 10)), char_of (48 + nat (n mod 10))]"
proof -
  have "0 \<le> n div 10" "n div 10 < 10" using assms by simp_all
  then have "showNat (n div 10) = [char_of (48 + nat (n div 10))]" by (rule showNat_1)
  then show ?thesis using assms by (subst showNat.simps) simp
qed

lemma showNat_step: "10 \<le> n \<Longrightarrow> showNat n = showNat (n div 10) @ [char_of (48 + nat (n mod 10))]"
  by (subst showNat.simps) simp

lemma showNat_4:
  assumes "1000 \<le> n" "n < 10000"
  shows "showNat n = [char_of (48 + nat (n div 1000)), char_of (48 + nat (n div 100 mod 10)),
                      char_of (48 + nat (n div 10 mod 10)), char_of (48 + nat (n mod 10))]"
proof -
  have a: "showNat n = showNat (n div 10) @ [char_of (48 + nat (n mod 10))]"
    using assms by (intro showNat_step) simp
  have b: "showNat (n div 10) = showNat (n div 10 div 10) @ [char_of (48 + nat (n div 10 mod 10))]"
    using assms by (intro showNat_step) simp
  have c: "showNat (n div 10 div 10) =
             [char_of (48 + nat (n div 10 div 10 div 10)), char_of (48 + nat (n div 10 div 10 mod 10))]"
    using assms by (intro showNat_2) simp_all
  have d: "n div 10 div 10 = n div 100" "n div 10 div 10 div 10 = n div 1000"
    by (simp_all add: zdiv_zmult2_eq [symmetric])
  show ?thesis using a b c d by simp
qed

lemma char_of_48: "char_of (48 :: nat) = CHR ''0''"
  by code_simp

lemma strip_pad:
  "rev (dropWhile (\<lambda>c. c = z) (rev xs))
     @ replicate (length xs - length (dropWhile (\<lambda>c. c = z) (rev xs))) z = xs"
proof -
  define ys where "ys = rev xs"
  have split: "ys = takeWhile (\<lambda>c. c = z) ys @ dropWhile (\<lambda>c. c = z) ys" by simp
  have "\<forall>c \<in> set (takeWhile (\<lambda>c. c = z) ys). c = z" by (auto dest: set_takeWhileD)
  then have tw: "takeWhile (\<lambda>c. c = z) ys = replicate (length (takeWhile (\<lambda>c. c = z) ys)) z"
    by (simp add: replicate_length_same)
  have len: "length xs - length (dropWhile (\<lambda>c. c = z) ys) = length (takeWhile (\<lambda>c. c = z) ys)"
  proof -
    have "length (takeWhile (\<lambda>c. c = z) ys) + length (dropWhile (\<lambda>c. c = z) ys) = length ys"
      by (metis length_append takeWhile_dropWhile_id)
    then show ?thesis by (simp add: ys_def)
  qed
  have "xs = rev ys" by (simp add: ys_def)
  also have "\<dots> = rev (dropWhile (\<lambda>c. c = z) ys) @ rev (takeWhile (\<lambda>c. c = z) ys)"
    by (subst split) (simp only: rev_append)
  also have "rev (takeWhile (\<lambda>c. c = z) ys) = replicate (length (takeWhile (\<lambda>c. c = z) ys)) z"
    by (subst tw) simp
  finally show ?thesis using len by (simp add: ys_def)
qed

lemma numToString_whole:
  assumes "0 \<le> m" "length (showNat m) \<le> 21"
  shows "numToString (Fin m 0) = showNat m"
proof (cases "m = 0")
  case True
  then show ?thesis by (simp add: numToString_def showNat_1 char_of_48)
next
  case False
  have k: "length (dropWhile (\<lambda>c. c = CHR ''0'') (rev (showNat m))) \<le> length (showNat m)"
    using length_dropWhile_le [of _ "rev (showNat m)"] by simp
  show ?thesis
    using assms False k strip_pad [of "CHR ''0''" "showNat m"]
    by (simp add: numToString_def Let_def nat_diff_distrib')
qed

section \<open>The calendar\<close>

lemma yearDown_le: "DayFromYear (yearDown d y) \<le> d"
proof (induction d y rule: yearDown.induct)
  case (1 d y)
  show ?case
  proof (cases "d < DayFromYear y")
    case True
    then have "yearDown d y = yearDown d (y - 1)" by (subst yearDown.simps) simp
    then show ?thesis using 1 True by simp
  next
    case False
    then have "yearDown d y = y" by (subst yearDown.simps) simp
    then show ?thesis using False by simp
  qed
qed

lemma yearUp_bounds:
  "DayFromYear y \<le> d \<Longrightarrow>
     DayFromYear (yearUp d y) \<le> d \<and> d < DayFromYear (yearUp d y + 1)"
proof (induction d y rule: yearUp.induct)
  case (1 d y)
  show ?case
  proof (cases "DayFromYear (y + 1) \<le> d")
    case True
    then have "yearUp d y = yearUp d (y + 1)" by (subst yearUp.simps) simp
    then show ?thesis using 1 True by simp
  next
    case False
    then have "yearUp d y = y" by (subst yearUp.simps) simp
    then show ?thesis using False 1 by simp
  qed
qed

lemma YearFromDay_bounds:
  "DayFromYear (YearFromDay d) \<le> d \<and> d < DayFromYear (YearFromDay d + 1)"
  unfolding YearFromDay_def by (rule yearUp_bounds) (rule yearDown_le)

lemma DayWithinYear_bounds:
  "0 \<le> DayWithinYear t \<and> DayWithinYear t < 365 + InLeapYear t"
proof -
  have b: "DayFromYear (YearFromTime t) \<le> Day t"
       "Day t < DayFromYear (YearFromTime t) + DaysInYear (YearFromTime t)"
    using YearFromDay_bounds [of "Day t"] DayFromYear_step [of "YearFromTime t"]
    by (simp_all add: YearFromTime_def)
  have "DaysInYear (YearFromTime t) = 365 + InLeapYear t"
    using DaysInYear_bounds [of "YearFromTime t"] by (simp add: InLeapYear_def DaysInYear_def)
  then show ?thesis using b by (simp add: DayWithinYear_def)
qed

lemma InLeapYear_cases: "InLeapYear t = 0 \<or> InLeapYear t = 1"
  by (simp add: InLeapYear_def)

lemma MonthFromTime_bounds: "0 \<le> MonthFromTime t \<and> MonthFromTime t \<le> 11"
  by (simp add: MonthFromTime_def Let_def)

lemma DateFromTime_bounds: "1 \<le> DateFromTime t \<and> DateFromTime t \<le> 31"
proof -
  define d l where "d = DayWithinYear t" and "l = InLeapYear t"
  have d: "0 \<le> d" "d < 365 + l" using DayWithinYear_bounds [of t] by (simp_all add: d_def l_def)
  have l: "l = 0 \<or> l = 1" using InLeapYear_cases [of t] by (simp add: l_def)
  have m: "MonthFromTime t =
      (if d < 31 then 0 else if d < 59 + l then 1 else if d < 90 + l then 2
       else if d < 120 + l then 3 else if d < 151 + l then 4 else if d < 181 + l then 5
       else if d < 212 + l then 6 else if d < 243 + l then 7 else if d < 273 + l then 8
       else if d < 304 + l then 9 else if d < 334 + l then 10 else 11)"
    by (simp add: MonthFromTime_def Let_def d_def l_def)
  have "DateFromTime t =
      (let m = MonthFromTime t in
       if m = 0 then d + 1 else if m = 1 then d - 30 else if m = 2 then d - 58 - l
       else if m = 3 then d - 89 - l else if m = 4 then d - 119 - l
       else if m = 5 then d - 150 - l else if m = 6 then d - 180 - l
       else if m = 7 then d - 211 - l else if m = 8 then d - 242 - l
       else if m = 9 then d - 272 - l else if m = 10 then d - 303 - l else d - 333 - l)"
    by (simp add: DateFromTime_def Let_def d_def l_def)
  then show ?thesis using d l unfolding m Let_def by (auto split: if_splits)
qed

lemma time_bounds:
  "0 \<le> HourFromTime t \<and> HourFromTime t < 24"
  "0 \<le> MinFromTime t \<and> MinFromTime t < 60"
  "0 \<le> SecFromTime t \<and> SecFromTime t < 60"
  by (simp_all add: HourFromTime_def MinFromTime_def SecFromTime_def)

section \<open>Properties of the date normalizer\<close>

lemma pad2:
  assumes "0 \<le> v" "v < 100"
  shows "padStart 2 CHR ''0'' (numToString (Fin v 0)) =
           [char_of (48 + nat (v div 10)), char_of (48 + nat (v mod 10))]"
proof (cases "v < 10")
  case True
  then have s: "showNat v = [char_of (48 + nat v)]" using assms by (simp add: showNat_1)
  then have "numToString (Fin v 0) = [char_of (48 + nat v)]"
    using assms numToString_whole [of v] by simp
  then show ?thesis using True assms by (simp add: padStart_def char_of_48)
next
  case False
  then have s: "showNat v = [char_of (48 + nat (v div 10)), char_of (48 + nat (v mod 10))]"
    using assms by (simp add: showNat_2)
  then have "numToString (Fin v 0) = showNat v"
    using assms numToString_whole [of v] by simp
  then show ?thesis using s by (simp add: padStart_def)
qed

lemma year4:
  assumes "1000 \<le> y" "y \<le> 9999"
  shows "numToString (Fin y 0) =
           [char_of (48 + nat (y div 1000)), char_of (48 + nat (y div 100 mod 10)),
            char_of (48 + nat (y div 10 mod 10)), char_of (48 + nat (y mod 10))]"
proof -
  have s: "showNat y =
           [char_of (48 + nat (y div 1000)), char_of (48 + nat (y div 100 mod 10)),
            char_of (48 + nat (y div 10 mod 10)), char_of (48 + nat (y mod 10))]"
    using assms by (intro showNat_4) simp_all
  then have "numToString (Fin y 0) = showNat y"
    using assms numToString_whole [of y] by simp
  then show ?thesis using s by simp
qed


lemma toIso_explicit:
  assumes "1000 \<le> YearFromTime t" "YearFromTime t \<le> 9999"
  shows "toIsoStringWithoutMilliseconds (TimeValue t) =
     [dg (YearFromTime t div 1000), dg (YearFromTime t div 100 mod 10),
      dg (YearFromTime t div 10 mod 10), dg (YearFromTime t mod 10), CHR ''-'',
      dg ((MonthFromTime t + 1) div 10), dg ((MonthFromTime t + 1) mod 10), CHR ''-'',
      dg (DateFromTime t div 10), dg (DateFromTime t mod 10), CHR ''T'',
      dg (HourFromTime t div 10), dg (HourFromTime t mod 10), CHR '':'',
      dg (MinFromTime t div 10), dg (MinFromTime t mod 10), CHR '':'',
      dg (SecFromTime t div 10), dg (SecFromTime t mod 10), CHR ''Z'']"
proof -
  have mo: "0 \<le> MonthFromTime t + 1" "MonthFromTime t + 1 < 100"
    using MonthFromTime_bounds [of t] by simp_all
  have da: "0 \<le> DateFromTime t" "DateFromTime t < 100"
    using DateFromTime_bounds [of t] by simp_all
  have ho: "0 \<le> HourFromTime t" "HourFromTime t < 100"
    using time_bounds(1) [of t] by simp_all
  have mi: "0 \<le> MinFromTime t" "MinFromTime t < 100"
    using time_bounds(2) [of t] by simp_all
  have se: "0 \<le> SecFromTime t" "SecFromTime t < 100"
    using time_bounds(3) [of t] by simp_all
  show ?thesis
    unfolding toIsoStringWithoutMilliseconds_def Let_def dg_def
    by (simp add: getUTCFullYear_def getUTCMonth_def getUTCDate_def getUTCHours_def
          getUTCMinutes_def getUTCSeconds_def num_add_def year4 [OF assms]
          pad2 [OF mo] pad2 [OF da] pad2 [OF ho] pad2 [OF mi] pad2 [OF se])
qed

lemma dg_digit:
  assumes "0 \<le> d" "d < 10"
  shows "isDigit (dg d)" "int (digitVal (dg d)) = d"
  using digit_char [OF assms] assms by (simp_all add: dg_def)

lemma two_digits:
  assumes "0 \<le> v" "v < 100"
  shows "isDigit (dg (v div 10))" "isDigit (dg (v mod 10))"
        "valueOfDigits 10 [dg (v div 10), dg (v mod 10)] = v"
proof -
  have a: "0 \<le> v div 10" "v div 10 < 10" "0 \<le> v mod 10" "v mod 10 < 10"
    using assms by simp_all
  show "isDigit (dg (v div 10))" "isDigit (dg (v mod 10))"
    using a by (simp_all add: dg_digit)
  show "valueOfDigits 10 [dg (v div 10), dg (v mod 10)] = v"
    using a by (simp add: valueOfDigits_def dg_digit)
qed

lemma four_digits:
  assumes "1000 \<le> y" "y \<le> 9999"
  shows "isDigit (dg (y div 1000))" "isDigit (dg (y div 100 mod 10))"
        "isDigit (dg (y div 10 mod 10))" "isDigit (dg (y mod 10))"
        "valueOfDigits 10 [dg (y div 1000), dg (y div 100 mod 10), dg (y div 10 mod 10),
                           dg (y mod 10)] = y"
proof -
  have a: "0 \<le> y div 1000" "y div 1000 < 10" using assms by simp_all
  have b: "0 \<le> y div 100 mod 10" "y div 100 mod 10 < 10"
          "0 \<le> y div 10 mod 10" "y div 10 mod 10 < 10" "0 \<le> y mod 10" "y mod 10 < 10"
    by simp_all
  show "isDigit (dg (y div 1000))" "isDigit (dg (y div 100 mod 10))"
       "isDigit (dg (y div 10 mod 10))" "isDigit (dg (y mod 10))"
    using a b by (simp_all add: dg_digit)
  define A B C D Q1 Q2 where "A = y div 1000" and "B = y div 100 mod 10"
    and "C = y div 10 mod 10" and "D = y mod 10" and "Q1 = y div 10" and "Q2 = y div 100"
  have e1: "y = 10 * Q1 + D" by (simp add: Q1_def D_def)
  have e2: "Q1 = 10 * Q2 + C"
    using div_mult_mod_eq [of "y div 10" 10]
    by (simp add: Q1_def Q2_def C_def zdiv_zmult2_eq [symmetric])
  have e3: "Q2 = 10 * A + B"
    using div_mult_mod_eq [of "y div 100" 10]
    by (simp add: Q2_def A_def B_def zdiv_zmult2_eq [symmetric])
  have sum: "10 * (10 * (10 * A + B) + C) + D = y"
    using e1 e2 e3 by simp
  have "valueOfDigits 10 [dg (y div 1000), dg (y div 100 mod 10), dg (y div 10 mod 10),
                           dg (y mod 10)]
        = 10 * (10 * (10 * A + B) + C) + D"
    using a b by (simp add: valueOfDigits_def dg_digit A_def B_def C_def D_def)
  then show "valueOfDigits 10 [dg (y div 1000), dg (y div 100 mod 10), dg (y div 10 mod 10),
                           dg (y mod 10)] = y"
    using sum by simp
qed

lemma whole_seconds:
  fixes t :: int
  shows "(t - t mod 1000) div 1000 = t div 1000"
proof -
  have "t - t mod 1000 = 1000 * (t div 1000)" by (simp add: minus_mod_eq_mult_div)
  then show ?thesis by simp
qed

lemma by_seconds:
  fixes t :: int
  shows "Day t = t div 1000 div 86400"
    and "HourFromTime t = t div 1000 div 3600 mod 24"
    and "MinFromTime t = t div 1000 div 60 mod 60"
    and "SecFromTime t = t div 1000 mod 60"
proof -
  show "Day t = t div 1000 div 86400"
    using zdiv_zmult2_eq [of 86400 t 1000] by (simp add: Day_def msPerDay_def)
  show "HourFromTime t = t div 1000 div 3600 mod 24"
    using zdiv_zmult2_eq [of 3600 t 1000] by (simp add: HourFromTime_def)
  show "MinFromTime t = t div 1000 div 60 mod 60"
    using zdiv_zmult2_eq [of 60 t 1000] by (simp add: MinFromTime_def)
  show "SecFromTime t = t div 1000 mod 60"
    by (simp add: SecFromTime_def)
qed

lemma truncated_fields:
  fixes t :: int
  defines "t' \<equiv> t - t mod 1000"
  shows "YearFromTime t' = YearFromTime t" "MonthFromTime t' = MonthFromTime t"
    "DateFromTime t' = DateFromTime t" "HourFromTime t' = HourFromTime t"
    "MinFromTime t' = MinFromTime t" "SecFromTime t' = SecFromTime t"
proof -
  have s: "t' div 1000 = t div 1000" unfolding t'_def by (rule whole_seconds)
  have d: "Day t' = Day t" by (simp add: by_seconds(1) s)
  show y: "YearFromTime t' = YearFromTime t" by (simp add: YearFromTime_def d)
  have w: "DayWithinYear t' = DayWithinYear t" by (simp add: DayWithinYear_def d y)
  have l: "InLeapYear t' = InLeapYear t" by (simp add: InLeapYear_def y)
  show m: "MonthFromTime t' = MonthFromTime t" by (simp add: MonthFromTime_def w l)
  show "DateFromTime t' = DateFromTime t" by (simp add: DateFromTime_def w l m)
  show "HourFromTime t' = HourFromTime t" by (simp add: by_seconds(2) s)
  show "MinFromTime t' = MinFromTime t" by (simp add: by_seconds(3) s)
  show "SecFromTime t' = SecFromTime t" by (simp add: by_seconds(4) s)
qed

lemma toIso_truncates:
  "toIsoStringWithoutMilliseconds (TimeValue (t - t mod 1000)) =
   toIsoStringWithoutMilliseconds (TimeValue t)"
  by (simp add: toIsoStringWithoutMilliseconds_def getUTCFullYear_def getUTCMonth_def
        getUTCDate_def getUTCHours_def getUTCMinutes_def getUTCSeconds_def truncated_fields)

text \<open>
  C7 (as amended). For every timestamp whose UTC year is from 1000 to 9999, the date
  normalizer returns a string of the exact shape \<open>YYYY-MM-DDTHH:MM:SSZ\<close> that holds
  the UTC year, month, day, hours, minutes and seconds of the timestamp (month, day,
  hours, minutes and seconds padded with zeros to two digits) and ends in \<open>Z\<close>;
  the milliseconds are truncated, never rounded: the result is that of the timestamp
  with its milliseconds taken away.
\<close>

theorem toIsoStringWithoutMilliseconds_shape:
  assumes "1000 \<le> YearFromTime t" and "YearFromTime t \<le> 9999"
  shows "isoShape (toIsoStringWithoutMilliseconds (TimeValue t))
     \<and> fieldAt (toIsoStringWithoutMilliseconds (TimeValue t)) 0 4 = YearFromTime t
     \<and> fieldAt (toIsoStringWithoutMilliseconds (TimeValue t)) 5 2 = MonthFromTime t + 1
     \<and> fieldAt (toIsoStringWithoutMilliseconds (TimeValue t)) 8 2 = DateFromTime t
     \<and> fieldAt (toIsoStringWithoutMilliseconds (TimeValue t)) 11 2 = HourFromTime t
     \<and> fieldAt (toIsoStringWithoutMilliseconds (TimeValue t)) 14 2 = MinFromTime t
     \<and> fieldAt (toIsoStringWithoutMilliseconds (TimeValue t)) 17 2 = SecFromTime t
     \<and> toIsoStringWithoutMilliseconds (TimeValue t) =
         toIsoStringWithoutMilliseconds (TimeValue (t - t mod 1000))"
proof -
  have mo: "0 \<le> MonthFromTime t + 1" "MonthFromTime t + 1 < 100"
    using MonthFromTime_bounds [of t] by simp_all
  have da: "0 \<le> DateFromTime t" "DateFromTime t < 100"
    using DateFromTime_bounds [of t] by simp_all
  have ho: "0 \<le> HourFromTime t" "HourFromTime t < 100"
    using time_bounds(1) [of t] by simp_all
  have mi: "0 \<le> MinFromTime t" "MinFromTime t < 100"
    using time_bounds(2) [of t] by simp_all
  have se: "0 \<le> SecFromTime t" "SecFromTime t < 100"
    using time_bounds(3) [of t] by simp_all
  note e = toIso_explicit [OF assms]
  have "isoShape (toIsoStringWithoutMilliseconds (TimeValue t))"
    unfolding e isoShape_def
    by (simp add: four_digits(1-4) [OF assms] two_digits(1,2) [OF mo] two_digits(1,2) [OF da]
          two_digits(1,2) [OF ho] two_digits(1,2) [OF mi] two_digits(1,2) [OF se])
  moreover have "fieldAt (toIsoStringWithoutMilliseconds (TimeValue t)) 0 4 = YearFromTime t"
    unfolding e fieldAt_def by (simp add: four_digits(5) [OF assms])
  moreover have "fieldAt (toIsoStringWithoutMilliseconds (TimeValue t)) 5 2 = MonthFromTime t + 1"
    unfolding e fieldAt_def by (simp add: two_digits(3) [OF mo])
  moreover have "fieldAt (toIsoStringWithoutMilliseconds (TimeValue t)) 8 2 = DateFromTime t"
    unfolding e fieldAt_def by (simp add: two_digits(3) [OF da])
  moreover have "fieldAt (toIsoStringWithoutMilliseconds (TimeValue t)) 11 2 = HourFromTime t"
    unfolding e fieldAt_def by (simp add: two_digits(3) [OF ho])
  moreover have "fieldAt (toIsoStringWithoutMilliseconds (TimeValue t)) 14 2 = MinFromTime t"
    unfolding e fieldAt_def by (simp add: two_digits(3) [OF mi])
  moreover have "fieldAt (toIsoStringWithoutMilliseconds (TimeValue t)) 17 2 = SecFromTime t"
    unfolding e fieldAt_def by (simp add: two_digits(3) [OF se])
  moreover have "toIsoStringWithoutMilliseconds (TimeValue t) =
         toIsoStringWithoutMilliseconds (TimeValue (t - t mod 1000))"
    by (rule toIso_truncates [symmetric])
  ultimately show ?thesis by blast
qed

theorem toIsoStringWithoutMilliseconds_shape_witness:
  "1000 \<le> YearFromTime 1682944245678 \<and> YearFromTime 1682944245678 \<le> 9999
   \<and> toIsoStringWithoutMilliseconds (TimeValue 1682944245678) = ''2023-05-01T12:30:45Z''
   \<and> isoShape (toIsoStringWithoutMilliseconds (TimeValue 1682944245678))
   \<and> toIsoStringWithoutMilliseconds (TimeValue 1682944245678) =
       toIsoStringWithoutMilliseconds (TimeValue (1682944245678 - 1682944245678 mod 1000))"
proof -
  have y: "YearFromTime 1682944245678 = 2023" by code_simp
  have h1: "1000 \<le> YearFromTime 1682944245678" and h2: "YearFromTime 1682944245678 \<le> 9999"
    unfolding y by simp_all
  have s: "toIsoStringWithoutMilliseconds (TimeValue 1682944245678) = ''2023-05-01T12:30:45Z''"
    by code_simp
  note r = toIsoStringWithoutMilliseconds_shape [OF h1 h2]
  from r have a: "isoShape (toIsoStringWithoutMilliseconds (TimeValue 1682944245678))"
    by (rule conjunct1)
  from r have b: "toIsoStringWithoutMilliseconds (TimeValue 1682944245678) =
       toIsoStringWithoutMilliseconds (TimeValue (1682944245678 - 1682944245678 mod 1000))"
    by (elim conjE)
  show ?thesis using h1 h2 s a b by (intro conjI)
qed

text \<open>
  The year is written without padding or cut: the first instant of the year 10000 gives
  a string of twenty-one characters.
\<close>

theorem toIsoStringWithoutMilliseconds_year_10000:
  "toIsoStringWithoutMilliseconds (TimeValue 253402300800000) = ''10000-01-01T00:00:00Z''
   \<and> \<not> isoShape (toIsoStringWithoutMilliseconds (TimeValue 253402300800000))"
proof -
  have s: "toIsoStringWithoutMilliseconds (TimeValue 253402300800000) = ''10000-01-01T00:00:00Z''"
    by code_simp
  show ?thesis unfolding s by (simp add: isoShape_def)
qed

section \<open>Properties of the response writer and of the list handler\<close>

lemma writeResponse_sent:
  assumes "headersSent res"
  shows "writeResponse res ct sc m = res\<lparr>calls := calls res @ [(ct, sc, m)]\<rparr>"
  using assms by (simp add: writeResponse_def)

lemma writeResponse_calls: "calls (writeResponse res ct sc m) = calls res @ [(ct, sc, m)]"
  by (simp add: writeResponse_def Let_def)

lemma writeResponse_headersSent: "headersSent (writeResponse res ct sc m)"
  by (simp add: writeResponse_def Let_def)

lemma writeResponse_firstCallSent:
  assumes "firstCallSent res"
  shows "firstCallSent (writeResponse res ct sc m)"
proof (cases "calls res")
  case Nil
  then have "\<not> headersSent res" using assms by (simp add: firstCallSent_def)
  then show ?thesis using Nil by (simp add: firstCallSent_def writeResponse_def Let_def)
next
  case (Cons c cs)
  then have "headersSent res" using assms by (simp add: firstCallSent_def split: prod.splits)
  then show ?thesis
    using Cons assms by (simp add: firstCallSent_def writeResponse_sent split: prod.splits)
qed

lemma errorBadRequest_all_calls:
  "calls (foldl errorBadRequest res ds) = calls res @ map problemCall ds"
  by (induction ds arbitrary: res)
     (simp_all add: errorBadRequest_def writeResponse_calls problemCall_def)

lemma errorBadRequest_all_firstCallSent:
  "firstCallSent res \<Longrightarrow> firstCallSent (foldl errorBadRequest res ds)"
  by (induction ds arbitrary: res)
     (simp_all add: errorBadRequest_def writeResponse_firstCallSent)

lemma foldl_if_single: "foldl f r (if c then [x] else []) = (if c then f r x else r)"
  by simp

lemma listHandler_phases:
  "listHandler env query res =
     (let perPage = intOrMinusOne (queryParam query ''per-page'' (PNumber (Fin 20 0)));
          page = intOrMinusOne (queryParam query ''page'' (PNumber (Fin 1 0)));
          order' = stringOr (queryParam query ''order'' PNull) ''desc'';
          useDate = stringOr (queryParam query ''use-date'' PNull) ''default'';
          startDate = stringOr (queryParam query ''start-date'' PNull) '''';
          endDate = stringOr (queryParam query ''end-date'' PNull) '''';
          res6 = foldl errorBadRequest res (validationErrors query)
      in case fetchVersionsNoContent env page perPage order' useDate startDate endDate of
           Inl err \<Rightarrow> (res6, Some err)
         | Inr (results_total, results_items) \<Rightarrow>
             (writeResponse res6 ''application/vnd.elife.reviewed-preprint-list+json; version=1''
                200 (ListResponse results_total
                       (map enhancedArticleNoContentToSnippet results_items)),
              None))"
  unfolding listHandler_def validationErrors_def Let_def foldl_append foldl_if_single
  by (rule refl)

lemma listHandler_calls:
  "take (length (validationErrors query)) (calls (fst (listHandler env query newResponse)))
     = map problemCall (validationErrors query)"
  unfolding listHandler_phases Let_def
  by (simp add: errorBadRequest_all_calls writeResponse_calls newResponse_def
        split: sum.splits prod.splits)

lemma firstCallSent_new: "firstCallSent newResponse"
  by (simp add: firstCallSent_def newResponse_def)

lemma listHandler_firstCallSent: "firstCallSent (fst (listHandler env query newResponse))"
  unfolding listHandler_phases Let_def
  by (simp add: errorBadRequest_all_firstCallSent writeResponse_firstCallSent firstCallSent_new
        split: sum.splits prod.splits)

lemma listHandler_first_error:
  assumes "validationErrors query \<noteq> []"
  shows "statusCode (fst (listHandler env query newResponse)) = 400"
    and "body (fst (listHandler env query newResponse)) =
           Some (Problem ''bad request'' (Some (hd (validationErrors query))))"
proof -
  define res' where "res' = fst (listHandler env query newResponse)"
  obtain d ds where ds: "validationErrors query = d # ds"
    using assms by (cases "validationErrors query") auto
  have "take (length (d # ds)) (calls res') = map problemCall (d # ds)"
    using listHandler_calls [of query env] by (simp add: res'_def ds)
  then obtain cs where cs: "calls res' = problemCall d # cs"
    by (cases "calls res'") auto
  have "firstCallSent res'" unfolding res'_def by (rule listHandler_firstCallSent)
  then have "statusCode res' = 400 \<and> body res' = Some (Problem ''bad request'' (Some d))"
    using cs by (simp add: firstCallSent_def problemCall_def)
  then show "statusCode (fst (listHandler env query newResponse)) = 400"
    and "body (fst (listHandler env query newResponse)) =
           Some (Problem ''bad request'' (Some (hd (validationErrors query))))"
    by (simp_all add: res'_def ds)
qed

text \<open>
  C9. Once a response has been written (its headers are sent), every later call of
  \<open>writeResponse\<close> leaves the status code, the headers and the body as they are;
  every call leaves the headers sent. So the list handler sends at most one response,
  that of its first call of \<open>writeResponse\<close>; after a validation failure this is the
  400 problem of the first failed check, and the later write of the 200 list has no
  effect.
\<close>

theorem writeResponse_only_first:
  "(headersSent res \<longrightarrow>
        statusCode (writeResponse res ct sc m) = statusCode res
      \<and> headers (writeResponse res ct sc m) = headers res
      \<and> body (writeResponse res ct sc m) = body res
      \<and> headersSent (writeResponse res ct sc m))
   \<and> headersSent (writeResponse res' ct sc m)
   \<and> firstCallSent (fst (listHandler env query newResponse))
   \<and> (validationErrors query \<noteq> [] \<longrightarrow>
        statusCode (fst (listHandler env query newResponse)) = 400
      \<and> body (fst (listHandler env query newResponse)) =
          Some (Problem ''bad request'' (Some (hd (validationErrors query)))))"
proof (intro conjI impI)
  assume s: "headersSent res"
  show "statusCode (writeResponse res ct sc m) = statusCode res"
    and "headers (writeResponse res ct sc m) = headers res"
    and "body (writeResponse res ct sc m) = body res"
    and "headersSent (writeResponse res ct sc m)"
    using s by (simp_all add: writeResponse_sent)
next
  show "headersSent (writeResponse res' ct sc m)" by (rule writeResponse_headersSent)
  show "firstCallSent (fst (listHandler env query newResponse))"
    by (rule listHandler_firstCallSent)
next
  assume e: "validationErrors query \<noteq> []"
  show "statusCode (fst (listHandler env query newResponse)) = 400"
    and "body (fst (listHandler env query newResponse)) =
          Some (Problem ''bad request'' (Some (hd (validationErrors query))))"
    using e by (rule listHandler_first_error)+
qed

theorem writeResponse_only_first_witness:
  "headersSent (errorNotFoundRequest newResponse)
   \<and> statusCode (writeResponse (errorNotFoundRequest newResponse)
        ''application/vnd.elife.reviewed-preprint-list+json; version=1'' 200
        (ListResponse (Fin 0 0) [])) = 404
   \<and> body (writeResponse (errorNotFoundRequest newResponse)
        ''application/vnd.elife.reviewed-preprint-list+json; version=1'' 200
        (ListResponse (Fin 0 0) [])) = Some (Problem ''not found'' None)
   \<and> validationErrors [''page'' \<mapsto> ''0''] \<noteq> []
   \<and> calls (fst (listHandler (exampleEnv None) [''page'' \<mapsto> ''0''] newResponse)) =
       [problemCall ''expecting positive integer for 'page' parameter'',
        (''application/vnd.elife.reviewed-preprint-list+json; version=1'', 200,
         ListResponse (Fin 0 0) [])]
   \<and> statusCode (fst (listHandler (exampleEnv None) [''page'' \<mapsto> ''0''] newResponse)) = 400
   \<and> body (fst (listHandler (exampleEnv None) [''page'' \<mapsto> ''0''] newResponse)) =
       Some (Problem ''bad request'' (Some ''expecting positive integer for 'page' parameter''))"
proof -
  have h: "headersSent (errorNotFoundRequest newResponse)" by code_simp
  have v: "validationErrors [''page'' \<mapsto> ''0''] = [''expecting positive integer for 'page' parameter'']"
    by code_simp
  have c: "calls (fst (listHandler (exampleEnv None) [''page'' \<mapsto> ''0''] newResponse)) =
       [problemCall ''expecting positive integer for 'page' parameter'',
        (''application/vnd.elife.reviewed-preprint-list+json; version=1'', 200,
         ListResponse (Fin 0 0) [])]"
    by code_simp
  have n: "statusCode (errorNotFoundRequest newResponse) = 404"
       "body (errorNotFoundRequest newResponse) = Some (Problem ''not found'' None)"
    by code_simp+
  note r = writeResponse_only_first
    [of "errorNotFoundRequest newResponse"
        "''application/vnd.elife.reviewed-preprint-list+json; version=1''" 200
        "ListResponse (Fin 0 0) []" newResponse "exampleEnv None" "[''page'' \<mapsto> ''0'']"]
  show ?thesis using r h v c n by simp
qed

text \<open>
  C4 (as amended). For every request to the list endpoint in which two or more checks
  fail, every failed check of the six still calls \<open>writeResponse\<close> with its own 400
  problem, in the order page, per-page, order, use-date, start-date, end-date, and the
  response that is sent is the one of the first failed check.
\<close>

theorem validation_first_failure_wins:
  assumes "2 \<le> length (validationErrors query)"
  shows "take (length (validationErrors query))
           (calls (fst (listHandler env query newResponse)))
         = map problemCall (validationErrors query)
     \<and> statusCode (fst (listHandler env query newResponse)) = 400
     \<and> body (fst (listHandler env query newResponse)) =
         Some (Problem ''bad request'' (Some (hd (validationErrors query))))"
proof -
  have ne: "validationErrors query \<noteq> []" using assms by auto
  show ?thesis
    using listHandler_calls [of query env] listHandler_first_error [OF ne, of env] by simp
qed

theorem validation_first_failure_wins_witness:
  "2 \<le> length (validationErrors [''page'' \<mapsto> ''0'', ''per-page'' \<mapsto> ''101''])
   \<and> calls (fst (listHandler (exampleEnv None) [''page'' \<mapsto> ''0'', ''per-page'' \<mapsto> ''101'']
                 newResponse))
     = [problemCall ''expecting positive integer for 'page' parameter'',
        problemCall ''expecting positive integer between 1 and 100 for 'per-page' parameter'',
        (''application/vnd.elife.reviewed-preprint-list+json; version=1'', 200,
         ListResponse (Fin 0 0) [])]
   \<and> statusCode (fst (listHandler (exampleEnv None)
                        [''page'' \<mapsto> ''0'', ''per-page'' \<mapsto> ''101''] newResponse)) = 400
   \<and> body (fst (listHandler (exampleEnv None)
                  [''page'' \<mapsto> ''0'', ''per-page'' \<mapsto> ''101''] newResponse)) =
       Some (Problem ''bad request'' (Some ''expecting positive integer for 'page' parameter''))"
proof -
  have v: "validationErrors [''page'' \<mapsto> ''0'', ''per-page'' \<mapsto> ''101''] =
             [''expecting positive integer for 'page' parameter'',
              ''expecting positive integer between 1 and 100 for 'per-page' parameter'']"
    by code_simp
  have h: "2 \<le> length (validationErrors [''page'' \<mapsto> ''0'', ''per-page'' \<mapsto> ''101''])"
    unfolding v by simp
  have c: "calls (fst (listHandler (exampleEnv None) [''page'' \<mapsto> ''0'', ''per-page'' \<mapsto> ''101'']
                 newResponse))
     = [problemCall ''expecting positive integer for 'page' parameter'',
        problemCall ''expecting positive integer between 1 and 100 for 'per-page' parameter'',
        (''application/vnd.elife.reviewed-preprint-list+json; version=1'', 200,
         ListResponse (Fin 0 0) [])]"
    by code_simp
  show ?thesis
    using validation_first_failure_wins [OF h, of "exampleEnv None"] h c v by simp
qed

text \<open>
  With \<open>page=0\<close> and \<open>per-page=101\<close> the checks of page and of per-page fail, and
  the response that is sent carries the detail of the page check, not that of the last
  failed check.
\<close>

theorem validation_last_failure_not_sent:
  "validationErrors [''page'' \<mapsto> ''0'', ''per-page'' \<mapsto> ''101''] =
     [''expecting positive integer for 'page' parameter'',
      ''expecting positive integer between 1 and 100 for 'per-page' parameter'']
   \<and> body (fst (listHandler (exampleEnv None)
                  [''page'' \<mapsto> ''0'', ''per-page'' \<mapsto> ''101''] newResponse)) =
       Some (Problem ''bad request'' (Some ''expecting positive integer for 'page' parameter''))
   \<and> body (fst (listHandler (exampleEnv None)
                  [''page'' \<mapsto> ''0'', ''per-page'' \<mapsto> ''101''] newResponse)) \<noteq>
       Some (Problem ''bad request''
               (Some (last (validationErrors [''page'' \<mapsto> ''0'', ''per-page'' \<mapsto> ''101'']))))"
proof -
  have v: "validationErrors [''page'' \<mapsto> ''0'', ''per-page'' \<mapsto> ''101''] =
     [''expecting positive integer for 'page' parameter'',
      ''expecting positive integer between 1 and 100 for 'per-page' parameter'']"
    by code_simp
  have b: "body (fst (listHandler (exampleEnv None)
                  [''page'' \<mapsto> ''0'', ''per-page'' \<mapsto> ''101''] newResponse)) =
       Some (Problem ''bad request'' (Some ''expecting positive integer for 'page' parameter''))"
    by code_simp
  show ?thesis unfolding b v by simp
qed

text \<open>
  C5. The claim is that a page parameter that does not parse to a positive integer,
  a non-numeric string among them, gets the 400 problem of the page check. The code at
  \<open>page=abc\<close>: \<open>Number\<close> gives \<open>NaN\<close>, whose string is the string of what
  \<open>parseInt\<close> reads back from it, so \<open>NaN\<close> is kept instead of \<open>-1\<close>; the
  comparison \<open>NaN <= 0\<close> is false, no check fails, the upstream service is asked for
  page \<open>NaN\<close> and the handler answers 200.
\<close>

theorem page_not_a_number_passes:
  "Number' (PString ''abc'') = NaN
   \<and> numToString NaN = ''NaN'' \<and> parseInt10 ''NaN'' = NaN
   \<and> intOrMinusOne (PString ''abc'') = NaN
   \<and> \<not> num_le NaN (Fin 0 0)
   \<and> validationErrors [''page'' \<mapsto> ''abc''] = []
   \<and> versionsUrl (exampleEnv None) (intOrMinusOne (PString ''abc'')) (Fin 20 0) ''desc''
        ''default'' '''' '''' =
       Inr ''http://wiremock:3000/api/preprints-no-content?page=NaN&per-page=20&order=desc''
   \<and> calls (fst (listHandler (exampleEnv None) [''page'' \<mapsto> ''abc''] newResponse)) =
       [(''application/vnd.elife.reviewed-preprint-list+json; version=1'', 200,
         ListResponse (Fin 0 0) [])]
   \<and> statusCode (fst (listHandler (exampleEnv None) [''page'' \<mapsto> ''abc''] newResponse)) = 200"
  by (intro conjI; code_simp)

section \<open>Properties of the upstream client\<close>

lemma digit_not_space_or_sign:
  assumes "isDigit c"
  shows "\<not> isWhiteSpace c" "c \<noteq> CHR ''+''" "c \<noteq> CHR ''-''"
  using assms by (auto simp: isDigit_def isWhiteSpace_def)

lemma parseInt10_digits:
  assumes "h \<noteq> []" and "list_all isDigit h"
  shows "parseInt10 h = Fin (valueOfDigits 10 h) 0"
proof -
  obtain c cs where h: "h = c # cs" using assms(1) by (cases h) auto
  have c: "isDigit c" using assms(2) h by simp
  have t: "trimStart h = h"
    using digit_not_space_or_sign(1) [OF c] by (simp add: trimStart_def h)
  have w: "takeWhile isDigit h = h"
    using assms(2) by (simp add: takeWhile_eq_all_conv list_all_iff)
  show ?thesis
    using digit_not_space_or_sign(2,3) [OF c] assms(1)
    by (simp add: parseInt10_def t Let_def w) (simp add: h)
qed

lemma parseInt10_NaN_iff: "parseInt10 h = NaN \<longleftrightarrow> \<not> startsWithNumber h"
proof -
  have "takeWhile isDigit s = [] \<longleftrightarrow> \<not> (s \<noteq> [] \<and> isDigit (hd s))" for s :: string
    by (cases s) simp_all
  then show ?thesis
    by (simp add: parseInt10_def startsWithNumber_def Let_def)
qed

text \<open>
  C8 (as amended). For every upstream response that is ok and has a JSON body, the
  total that the upstream client returns is \<open>parseInt(header, 10)\<close> when the
  \<open>x-total-count\<close> header is present and not empty, and the number of items of the
  body when the header is absent or empty. For a header of decimal digits that denote
  an integer of at most \<open>2 ^ 53\<close>, \<open>parseInt\<close> gives that integer; it gives
  \<open>NaN\<close> exactly when the header does not start with a number.
\<close>

theorem fetchVersionsNoContent_total:
  assumes "versionsUrl env page perPage ordr useDate startDate endDate = Inr url"
    and "fetch env url = Some response"
    and "ok response"
    and "json response = Some items"
  shows "fetchVersionsNoContent env page perPage ordr useDate startDate endDate =
           Inr (case x_total_count response of
                  None \<Rightarrow> Fin (int (length items)) 0
                | Some h \<Rightarrow> if h = [] then Fin (int (length items)) 0 else parseInt10 h,
                items)
     \<and> (\<forall>h. h \<noteq> [] \<and> list_all isDigit h \<and> valueOfDigits 10 h \<le> 9007199254740992
            \<longrightarrow> parseInt10 h = Fin (valueOfDigits 10 h) 0)
     \<and> (\<forall>h. parseInt10 h = NaN \<longleftrightarrow> \<not> startsWithNumber h)"
proof (intro conjI allI impI)
  show "fetchVersionsNoContent env page perPage ordr useDate startDate endDate =
           Inr (case x_total_count response of
                  None \<Rightarrow> Fin (int (length items)) 0
                | Some h \<Rightarrow> if h = [] then Fin (int (length items)) 0 else parseInt10 h,
                items)"
    using assms by (simp add: fetchVersionsNoContent_def truthy_def split: option.splits)
next
  fix h :: string
  assume "h \<noteq> [] \<and> list_all isDigit h \<and> valueOfDigits 10 h \<le> 9007199254740992"
  then show "parseInt10 h = Fin (valueOfDigits 10 h) 0"
    using parseInt10_digits by blast
next
  fix h :: string
  show "parseInt10 h = NaN \<longleftrightarrow> \<not> startsWithNumber h" by (rule parseInt10_NaN_iff)
qed

theorem fetchVersionsNoContent_total_witness:
  "versionsUrl (exampleEnv (Some ''50'')) (Fin 1 0) (Fin 2 0) ''desc'' ''default'' '''' '''' =
     Inr ''http://wiremock:3000/api/preprints-no-content?page=1&per-page=2&order=desc''
   \<and> ok \<lparr>ok = True, statusText = ''OK'', x_total_count = Some ''50'', json = Some []\<rparr>
   \<and> fetchVersionsNoContent (exampleEnv (Some ''50'')) (Fin 1 0) (Fin 2 0) ''desc'' ''default''
        '''' '''' = Inr (Fin 50 0, [])
   \<and> ''50'' \<noteq> [] \<and> list_all isDigit ''50'' \<and> valueOfDigits 10 ''50'' \<le> 9007199254740992
   \<and> parseInt10 ''50'' = Fin (valueOfDigits 10 ''50'') 0
   \<and> \<not> startsWithNumber ''abc'' \<and> parseInt10 ''abc'' = NaN
   \<and> startsWithNumber '' -12px'' \<and> parseInt10 '' -12px'' \<noteq> NaN"
proof -
  have u: "versionsUrl (exampleEnv (Some ''50'')) (Fin 1 0) (Fin 2 0) ''desc'' ''default'' '''' ''''
      = Inr ''http://wiremock:3000/api/preprints-no-content?page=1&per-page=2&order=desc''"
    by code_simp
  have f: "fetch (exampleEnv (Some ''50''))
             ''http://wiremock:3000/api/preprints-no-content?page=1&per-page=2&order=desc''
           = Some \<lparr>ok = True, statusText = ''OK'', x_total_count = Some ''50'', json = Some []\<rparr>"
    by (simp add: exampleEnv_def)
  have d: "list_all isDigit ''50''" by code_simp
  have v: "valueOfDigits 10 ''50'' = 50" by code_simp
  have a: "\<not> startsWithNumber ''abc''" by code_simp
  have b: "startsWithNumber '' -12px''" by code_simp
  have o: "ok \<lparr>ok = True, statusText = ''OK'', x_total_count = Some ''50'', json = Some []\<rparr>"
    by simp
  have j: "json \<lparr>ok = True, statusText = ''OK'', x_total_count = Some ''50'',
                  json = Some ([] :: EnhancedArticleNoContent list)\<rparr> = Some []"
    by simp
  note r = fetchVersionsNoContent_total [OF u f o j]
  have r1: "fetchVersionsNoContent (exampleEnv (Some ''50'')) (Fin 1 0) (Fin 2 0) ''desc''
              ''default'' '''' '''' = Inr (parseInt10 ''50'', [])"
    using r by simp
  have r2: "parseInt10 ''50'' = Fin (valueOfDigits 10 ''50'') 0"
    using r d v by simp
  have r3: "parseInt10 ''abc'' = NaN" using r a by blast
  have r4: "parseInt10 '' -12px'' \<noteq> NaN" using r b by blast
  show ?thesis using u o d v a b r1 r2 r3 r4 by simp
qed

text \<open>
  A header that is present and does not start with a number gives the total \<open>NaN\<close>,
  not the number of items.
\<close>

theorem fetchVersionsNoContent_total_unparseable:
  "parseInt10 ''abc'' = NaN
   \<and> fetchVersionsNoContent (exampleEnv (Some ''abc'')) (Fin 1 0) (Fin 20 0) ''desc'' ''default''
        '''' '''' = Inr (NaN, [])
   \<and> fetchVersionsNoContent (exampleEnv (Some ''abc'')) (Fin 1 0) (Fin 20 0) ''desc'' ''default''
        '''' '''' \<noteq> Inr (Fin (int (length ([] :: EnhancedArticleNoContent list))) 0, [])"
proof -
  have f: "fetchVersionsNoContent (exampleEnv (Some ''abc'')) (Fin 1 0) (Fin 20 0) ''desc''
             ''default'' '''' '''' = Inr (NaN, [])"
    by code_simp
  have p: "parseInt10 ''abc'' = NaN" by code_simp
  show ?thesis unfolding f using p by simp
qed

text \<open>
  C3. The claim is that the query holds the end date shifted forward by one calendar
  day, year and month kept. The code takes only the day of the month from the end
  date and sets it, plus one, on the current date: with the clock at
  2026-11-03T09:18:00Z the end date 2023-05-01 gives \<open>end-date=2026-11-02\<close>, not
  \<open>end-date=2023-05-02\<close>.
\<close>

theorem end_date_takes_year_and_month_of_the_clock:
  "getUTCDate (Date_parse (exampleEnv None) ''2023-05-01'') = Fin 1 0
   \<and> Date_toISOString (TimeValue (now (exampleEnv None))) = Inr ''2026-11-03T09:18:00.000Z''
   \<and> endDateQuery (exampleEnv None) ''2023-05-01'' = Inr ''end-date=2026-11-02''
   \<and> versionsUrl (exampleEnv None) (Fin 1 0) (Fin 20 0) ''desc'' ''default'' '''' ''2023-05-01''
       = Inr ''http://wiremock:3000/api/preprints-no-content?page=1&per-page=20&order=desc&end-date=2026-11-02''"
  by (intro conjI; code_simp)

section \<open>Properties of the record transformer\<close>

text \<open>
  C6. For every upstream record with a published timestamp that is not null, the
  snippet has \<open>published\<close> and \<open>reviewedDate\<close> equal to the normalized
  \<open>firstPublished\<close>, \<open>versionDate\<close> and \<open>statusDate\<close> equal to the normalized
  \<open>published\<close>, \<open>id\<close> equal to the manuscript id, \<open>doi\<close> equal to the preprint
  DOI, the status \<open>reviewed\<close> and the stage \<open>published\<close>.
\<close>

theorem snippet_fields:
  assumes "published r = Some p"
  shows "snippet_published (enhancedArticleNoContentToSnippet r) =
           toIsoStringWithoutMilliseconds (firstPublished r)
     \<and> reviewedDate (enhancedArticleNoContentToSnippet r) =
           toIsoStringWithoutMilliseconds (firstPublished r)
     \<and> versionDate (enhancedArticleNoContentToSnippet r) = toIsoStringWithoutMilliseconds p
     \<and> statusDate (enhancedArticleNoContentToSnippet r) = toIsoStringWithoutMilliseconds p
     \<and> snippet_id (enhancedArticleNoContentToSnippet r) = msid r
     \<and> snippet_doi (enhancedArticleNoContentToSnippet r) = preprintDoi r
     \<and> status (enhancedArticleNoContentToSnippet r) = ''reviewed''
     \<and> stage (enhancedArticleNoContentToSnippet r) = ''published''"
  using assms
  by (simp add: enhancedArticleNoContentToSnippet_def Date_ofDate_def Date_ofNullable_def)

theorem snippet_fields_witness:
  "published exampleArticle = Some (TimeValue 1682944245678)
   \<and> snippet_published (enhancedArticleNoContentToSnippet exampleArticle) = ''2023-02-01T00:00:00Z''
   \<and> reviewedDate (enhancedArticleNoContentToSnippet exampleArticle) = ''2023-02-01T00:00:00Z''
   \<and> versionDate (enhancedArticleNoContentToSnippet exampleArticle) = ''2023-05-01T12:30:45Z''
   \<and> statusDate (enhancedArticleNoContentToSnippet exampleArticle) = ''2023-05-01T12:30:45Z''
   \<and> snippet_id (enhancedArticleNoContentToSnippet exampleArticle) = ''85111''
   \<and> snippet_doi (enhancedArticleNoContentToSnippet exampleArticle) = ''10.1101/2022.11.08.515698''
   \<and> status (enhancedArticleNoContentToSnippet exampleArticle) = ''reviewed''
   \<and> stage (enhancedArticleNoContentToSnippet exampleArticle) = ''published''"
proof -
  have h: "published exampleArticle = Some (TimeValue 1682944245678)"
    by (simp add: exampleArticle_def)
  have f: "firstPublished exampleArticle = TimeValue 1675209600000"
    and m: "msid exampleArticle = ''85111''"
    and d: "preprintDoi exampleArticle = ''10.1101/2022.11.08.515698''"
    by (simp_all add: exampleArticle_def)
  have t1: "toIsoStringWithoutMilliseconds (TimeValue 1675209600000) = ''2023-02-01T00:00:00Z''"
    by code_simp
  have t2: "toIsoStringWithoutMilliseconds (TimeValue 1682944245678) = ''2023-05-01T12:30:45Z''"
    by code_simp
  show ?thesis using snippet_fields [OF h] h f m d t1 t2 by simp
qed

end
